theory Spec2Isabelle
  imports Complex_Main "HOL-Library.Word" "HOL-Library.Multiset"
begin

section \<open>Values of the program\<close>

text \<open>
  The extractor (\<^verbatim>\<open>src/spotify_har.py\<close>, class \<^verbatim>\<open>SpotifyHARExtractor\<close>) works on the
  value that \<^verbatim>\<open>json.load\<close> returns: nested dicts, lists, strings, numbers, booleans
  and \<^verbatim>\<open>None\<close>. A dict is an association list in insertion order whose keys are
  distinct, as the JSON parser produces them; lookups read the first binding.

  Text is \<open>string\<close>: a character of the model is a code point below 256. Byte strings
  (\<^verbatim>\<open>bytes\<close>) are lists of 8-bit words.

  Console output (\<^verbatim>\<open>print\<close>) is left out. Integers are unbounded, as in Python; the
  interpreter's limit on the digits of \<^verbatim>\<open>int(str)\<close> is not part of the model. The
  interpreter's recursion limit is part of the model where the program recurses, in
  \<^verbatim>\<open>find_images_in_json\<close>.
\<close>

type_synonym byte = "8 word"
type_synonym bytes = "byte list"

datatype json =
    JNull
  | JBool bool
  | JInt int
  | JFloat real
  | JStr string
  | JArr "json list"
  | JObj "(string \<times> json) list"

text \<open>The exceptions that the operations used by the program raise.\<close>

datatype py_error = TypeError | AttributeError | KeyError | ValueError | OSError | RecursionError

subsection \<open>Sequences: \<^verbatim>\<open>startswith\<close> and \<^verbatim>\<open>in\<close>\<close>

definition startswith :: "'a list \<Rightarrow> 'a list \<Rightarrow> bool" where
  "startswith s p = (take (length p) s = p)"

text \<open>\<^verbatim>\<open>p in s\<close> for two strings or two byte strings: \<open>p\<close> occurs in \<open>s\<close> contiguously.\<close>

fun contains :: "'a list \<Rightarrow> 'a list \<Rightarrow> bool" where
  "contains [] p = (p = [])"
| "contains (c # cs) p = (startswith (c # cs) p \<or> contains cs p)"

subsection \<open>Duck-typed operations on parsed JSON\<close>

text \<open>Truthiness (\<^verbatim>\<open>if x:\<close>).\<close>

fun truthy :: "json \<Rightarrow> bool" where
  "truthy JNull = False"
| "truthy (JBool b) = b"
| "truthy (JInt n) = (n \<noteq> 0)"
| "truthy (JFloat r) = (r \<noteq> 0)"
| "truthy (JStr s) = (s \<noteq> [])"
| "truthy (JArr xs) = (xs \<noteq> [])"
| "truthy (JObj kvs) = (kvs \<noteq> [])"

text \<open>
  \<^verbatim>\<open>lit in x\<close> for a string literal \<open>lit\<close>: key membership in a dict, element membership
  in a list, substring in a string, \<^verbatim>\<open>TypeError\<close> on anything else.
\<close>

fun str_in :: "string \<Rightarrow> json \<Rightarrow> py_error + bool" where
  "str_in lit (JObj kvs) = Inr (lit \<in> set (map fst kvs))"
| "str_in lit (JArr xs) = Inr (JStr lit \<in> set xs)"
| "str_in lit (JStr s) = Inr (contains s lit)"
| "str_in lit _ = Inl TypeError"

text \<open>\<^verbatim>\<open>x.get(key, default)\<close>: only a dict has the method.\<close>

fun py_get :: "json \<Rightarrow> string \<Rightarrow> json \<Rightarrow> py_error + json" where
  "py_get (JObj kvs) k d = Inr (case map_of kvs k of Some v \<Rightarrow> v | None \<Rightarrow> d)"
| "py_get _ k d = Inl AttributeError"

text \<open>\<^verbatim>\<open>x[key]\<close> with a string key.\<close>

fun py_getitem :: "json \<Rightarrow> string \<Rightarrow> py_error + json" where
  "py_getitem (JObj kvs) k = (case map_of kvs k of Some v \<Rightarrow> Inr v | None \<Rightarrow> Inl KeyError)"
| "py_getitem _ k = Inl TypeError"

text \<open>
  Iteration (\<^verbatim>\<open>for x in v\<close>) and \<^verbatim>\<open>len(v)\<close>: a list gives its elements, a dict its
  keys, a string its characters; the other values raise \<^verbatim>\<open>TypeError\<close>.
\<close>

fun py_iter :: "json \<Rightarrow> py_error + json list" where
  "py_iter (JArr xs) = Inr xs"
| "py_iter (JObj kvs) = Inr (map (\<lambda>kv. JStr (fst kv)) kvs)"
| "py_iter (JStr s) = Inr (map (\<lambda>c. JStr [c]) s)"
| "py_iter _ = Inl TypeError"

text \<open>Exceptions propagate through a sequence of statements.\<close>

definition bind :: "py_error + 'a \<Rightarrow> ('a \<Rightarrow> py_error + 'b) \<Rightarrow> py_error + 'b" where
  "bind m f = (case m of Inl e \<Rightarrow> Inl e | Inr x \<Rightarrow> f x)"

section \<open>Content kind: \<^verbatim>\<open>get_file_extension\<close>\<close>

text \<open>
  The header table is an \<^verbatim>\<open>if\<close>/\<^verbatim>\<open>elif\<close> chain of \<^verbatim>\<open>in\<close> tests on the content type; the
  first test already raises when the content type is not a container, so the check is
  made once. The magic-byte tests follow only when no table entry matched.
\<close>

definition sniff_extension :: "bytes \<Rightarrow> string" where
  "sniff_extension data =
     (if startswith data [0xFF, 0xD8, 0xFF] then ''.jpg''
      else if startswith data [0x89, 0x50, 0x4E, 0x47] then ''.png''
      else if startswith data [0x47, 0x49, 0x46, 0x38] then ''.gif''
      else if startswith data [0x52, 0x49, 0x46, 0x46]
              \<and> contains (take 20 data) [0x57, 0x45, 0x42, 0x50] then ''.webp''
      else if startswith data [0x1A, 0x45, 0xDF, 0xA3] then ''.webm''
      else if startswith data [0x00, 0x00, 0x00]
              \<and> contains (take 20 data) [0x66, 0x74, 0x79, 0x70] then ''.mp4''
      else ''.bin'')"

definition get_file_extension :: "json \<Rightarrow> bytes \<Rightarrow> py_error + string" where
  "get_file_extension content_type data =
     bind (str_in ''jpeg'' content_type) (\<lambda>jpeg.
     bind (str_in ''jpg'' content_type) (\<lambda>jpg.
     bind (str_in ''png'' content_type) (\<lambda>png.
     bind (str_in ''gif'' content_type) (\<lambda>gif.
     bind (str_in ''webp'' content_type) (\<lambda>webp.
     bind (str_in ''webm'' content_type) (\<lambda>webm.
     bind (str_in ''mp4'' content_type) (\<lambda>mp4.
       Inr (if jpeg \<or> jpg then ''.jpg''
            else if png then ''.png''
            else if gif then ''.gif''
            else if webp then ''.webp''
            else if webm then ''.webm''
            else if mp4 then ''.mp4''
            else sniff_extension data))))))))"

text \<open>The extensions the function can return.\<close>

definition known_extensions :: "string list" where
  "known_extensions = [''.jpg'', ''.png'', ''.gif'', ''.webp'', ''.webm'', ''.mp4'', ''.bin'']"

section \<open>Characters and text\<close>

definition is_digit :: "char \<Rightarrow> bool" where
  \<comment> \<open>\<^verbatim>\<open>\d\<close>: below code point 256 the decimal digits are the ASCII ones.\<close>
  "is_digit c = (c \<in> set ''0123456789'')"

definition is_lower_hex :: "char \<Rightarrow> bool" where
  \<comment> \<open>the class \<^verbatim>\<open>[a-f0-9]\<close>\<close>
  "is_lower_hex c = (c \<in> set ''abcdef0123456789'')"

definition is_ascii_alnum :: "char \<Rightarrow> bool" where
  "is_ascii_alnum c =
     (c \<in> set ''ABCDEFGHIJKLMNOPQRSTUVWXYZabcdefghijklmnopqrstuvwxyz0123456789'')"

definition is_latin1_alnum :: "char \<Rightarrow> bool" where
  \<comment> \<open>the alphanumeric code points of \<^verbatim>\<open>str.isalnum\<close> from 128 to 255\<close>
  "is_latin1_alnum c =
     (let n = (of_char c :: nat) in
        n = 0xAA \<or> n = 0xB2 \<or> n = 0xB3 \<or> n = 0xB5 \<or> n = 0xB9 \<or> n = 0xBA
        \<or> (0xBC \<le> n \<and> n \<le> 0xBE) \<or> (0xC0 \<le> n \<and> n \<le> 0xD6)
        \<or> (0xD8 \<le> n \<and> n \<le> 0xF6) \<or> (0xF8 \<le> n \<and> n \<le> 0xFF))"

definition is_word_char :: "char \<Rightarrow> bool" where
  \<comment> \<open>\<^verbatim>\<open>\w\<close> in a \<^verbatim>\<open>str\<close> pattern: Unicode alphanumerics and the underscore\<close>
  "is_word_char c = (is_ascii_alnum c \<or> c = CHR ''_'' \<or> is_latin1_alnum c)"

definition upper_chars :: string where
  "upper_chars =
     ''ABCDEFGHIJKLMNOPQRSTUVWXYZ'' @
     [CHR 0xC0, CHR 0xC1, CHR 0xC2, CHR 0xC3, CHR 0xC4, CHR 0xC5, CHR 0xC6, CHR 0xC7,
      CHR 0xC8, CHR 0xC9, CHR 0xCA, CHR 0xCB, CHR 0xCC, CHR 0xCD, CHR 0xCE, CHR 0xCF,
      CHR 0xD0, CHR 0xD1, CHR 0xD2, CHR 0xD3, CHR 0xD4, CHR 0xD5, CHR 0xD6,
      CHR 0xD8, CHR 0xD9, CHR 0xDA, CHR 0xDB, CHR 0xDC, CHR 0xDD, CHR 0xDE]"

definition lower_chars :: string where
  "lower_chars =
     ''abcdefghijklmnopqrstuvwxyz'' @
     [CHR 0xE0, CHR 0xE1, CHR 0xE2, CHR 0xE3, CHR 0xE4, CHR 0xE5, CHR 0xE6, CHR 0xE7,
      CHR 0xE8, CHR 0xE9, CHR 0xEA, CHR 0xEB, CHR 0xEC, CHR 0xED, CHR 0xEE, CHR 0xEF,
      CHR 0xF0, CHR 0xF1, CHR 0xF2, CHR 0xF3, CHR 0xF4, CHR 0xF5, CHR 0xF6,
      CHR 0xF8, CHR 0xF9, CHR 0xFA, CHR 0xFB, CHR 0xFC, CHR 0xFD, CHR 0xFE]"

definition lower_char :: "char \<Rightarrow> char" where
  \<comment> \<open>\<^verbatim>\<open>str.lower\<close> on one code point below 256: the upper-case letters of ASCII and of
      Latin-1 (C0 to DE without the sign D7) go to the letter 32 places further\<close>
  "lower_char c = (case map_of (zip upper_chars lower_chars) c of Some l \<Rightarrow> l | None \<Rightarrow> c)"

definition lower :: "string \<Rightarrow> string" where
  "lower s = map lower_char s"

text \<open>\<^verbatim>\<open>s.strip('/')\<close>, \<^verbatim>\<open>s.split('/')\<close> and \<^verbatim>\<open>s.rsplit('.', 1)[0]\<close>.\<close>

definition strip_chr :: "char \<Rightarrow> string \<Rightarrow> string" where
  "strip_chr d s = rev (dropWhile (\<lambda>c. c = d) (rev (dropWhile (\<lambda>c. c = d) s)))"

fun split_chr :: "char \<Rightarrow> string \<Rightarrow> string list" where
  "split_chr d [] = [[]]"
| "split_chr d (c # cs) =
     (if c = d then [] # split_chr d cs
      else (case split_chr d cs of p # ps \<Rightarrow> (c # p) # ps | [] \<Rightarrow> [[c]]))"

definition rsplit1_head :: "char \<Rightarrow> string \<Rightarrow> string" where
  \<comment> \<open>the text before the last \<open>d\<close>; the whole text when there is none\<close>
  "rsplit1_head d s =
     (if d \<in> set s then rev (tl (dropWhile (\<lambda>c. c \<noteq> d) (rev s))) else s)"

text \<open>\<^verbatim>\<open>str(n)\<close> for an integer.\<close>

definition digit_chars :: string where
  "digit_chars = ''0123456789''"

fun str_nat :: "nat \<Rightarrow> string" where
  "str_nat n =
     (if n < 10 then [digit_chars ! n]
      else str_nat (n div 10) @ [digit_chars ! (n mod 10)])"

declare str_nat.simps [simp del]

definition str_int :: "int \<Rightarrow> string" where
  "str_int i = (if i < 0 then CHR ''-'' # str_nat (nat (- i)) else str_nat (nat i))"

text \<open>\<^verbatim>\<open>int(digits)\<close> for a non-empty run of decimal digits.\<close>

definition digit_val :: "char \<Rightarrow> nat" where
  "digit_val c = of_char c - 48"

definition int_of_digits :: "string \<Rightarrow> nat" where
  "int_of_digits ds = foldl (\<lambda>acc c. 10 * acc + digit_val c) 0 ds"

subsection \<open>The regular expressions of the program\<close>

text \<open>
  \<^verbatim>\<open>re.search\<close> with a pattern of the shape literal, one group \<^verbatim>\<open>(class+)\<close>, literal:
  the leftmost position where the literal \<open>pre\<close>, a non-empty run of the class and the
  literal \<open>suf\<close> follow one another; the result is the group. In each pattern of the
  program the first character of \<open>suf\<close> is outside the class, so a run shorter than the
  greedy one is followed by a class character and cannot be completed: only the longest
  run has to be tried.
\<close>

definition match_run_at :: "string \<Rightarrow> (char \<Rightarrow> bool) \<Rightarrow> string \<Rightarrow> string \<Rightarrow> string option" where
  "match_run_at pre cls suf s =
     (if startswith s pre then
        (let rest = drop (length pre) s; run = takeWhile cls rest
         in if run \<noteq> [] \<and> startswith (drop (length run) rest) suf then Some run else None)
      else None)"

fun search_run :: "string \<Rightarrow> (char \<Rightarrow> bool) \<Rightarrow> string \<Rightarrow> string \<Rightarrow> string option" where
  "search_run pre cls suf [] = None"
| "search_run pre cls suf (c # cs) =
     (case match_run_at pre cls suf (c # cs) of
        Some run \<Rightarrow> Some run
      | None \<Rightarrow> search_run pre cls suf cs)"

text \<open>
  \<^verbatim>\<open>re.findall\<close> with a pattern of the shape literal then \<^verbatim>\<open>[a-f0-9]{n}\<close>: the matches
  from left to right, the scan resuming behind each match.
\<close>

definition match_hex_at :: "string \<Rightarrow> nat \<Rightarrow> string \<Rightarrow> bool" where
  "match_hex_at pre n s =
     (startswith s pre
      \<and> length (take n (drop (length pre) s)) = n
      \<and> list_all is_lower_hex (take n (drop (length pre) s)))"

function findall_hex :: "string \<Rightarrow> nat \<Rightarrow> string \<Rightarrow> string list" where
  "findall_hex pre n [] = []"
| "findall_hex pre n (c # cs) =
     (if match_hex_at pre n (c # cs)
      then take (length pre + n) (c # cs) # findall_hex pre n (drop (length pre + n - 1) cs)
      else findall_hex pre n cs)"
  by pat_completeness auto
termination
  by (relation "measure (\<lambda>(pre, n, s). length s)") auto

section \<open>Host lists: \<^verbatim>\<open>is_spotify_image_url\<close>, \<^verbatim>\<open>is_spotify_video_url\<close>\<close>

definition spotify_image_domains :: "string list" where
  "spotify_image_domains =
     [''i.scdn.co'',
      ''mosaic.scdn.co'',
      ''seed-mix-image.spotifycdn.com'',
      ''lineup-images.scdn.co'',
      ''thisis-images.scdn.co'',
      ''charts-images.scdn.co'',
      ''daily-mix.scdn.co'',
      ''mixed-media-images.spotifycdn.com'']"

definition spotify_video_domains :: "string list" where
  "spotify_video_domains =
     [''video-akpcw.spotifycdn.com'',
      ''video-fa723fc0e0b4479496acdae1c1f.spotifycdn.com'',
      ''canvas.scdn.co'',
      ''canvaz.scdn.co'']"

text \<open>\<^verbatim>\<open>any(domain in url for domain in domains)\<close>, evaluated lazily from the left.\<close>

fun any_domain_in :: "string list \<Rightarrow> json \<Rightarrow> py_error + bool" where
  "any_domain_in [] url = Inr False"
| "any_domain_in (d # ds) url =
     bind (str_in d url) (\<lambda>b. if b then Inr True else any_domain_in ds url)"

definition is_spotify_image_url :: "json \<Rightarrow> py_error + bool" where
  "is_spotify_image_url url = any_domain_in spotify_image_domains url"

definition is_spotify_video_url :: "json \<Rightarrow> py_error + bool" where
  "is_spotify_video_url url = any_domain_in spotify_video_domains url"

section \<open>Reference scanning: \<^verbatim>\<open>find_images_in_json\<close>, \<^verbatim>\<open>find_image_patterns_in_text\<close>\<close>

text \<open>
  \<^verbatim>\<open>self.found_urls\<close> is a set of strings that only grows. The model keeps its members
  in the order of their first insertion; \<open>set\<close> of the list is the Python set.
\<close>

definition set_add :: "string \<Rightarrow> string list \<Rightarrow> string list" where
  "set_add u found = (if u \<in> set found then found else found @ [u])"

definition image_keys :: "string list" where
  "image_keys = [''image'', ''images'', ''cover_art'', ''avatar'', ''picture'', ''artwork'']"

text \<open>
  The scan passes the set through the traversal. A value under a curated key is looked
  at only as a string; the \<^verbatim>\<open>elif\<close> that descends belongs to the other keys.

  The function has no depth counter of its own, but every call of it takes one frame of
  the interpreter's stack, also a call on a scalar, and a call that finds no frame left
  raises \<^verbatim>\<open>RecursionError\<close>. The first argument is the number of frames the interpreter
  can still enter at the call. The test \<^verbatim>\<open>self.is_spotify_image_url(value)\<close> needs two
  frames below the current one, for the method and for the generator expression inside
  \<^verbatim>\<open>any\<close>. Frames are counted as CPython counts them from version 3.12 on: a call of a
  function written in Python takes one, a call of a built-in (\<^verbatim>\<open>isinstance\<close>,
  \<^verbatim>\<open>dict.items\<close>, \<^verbatim>\<open>any\<close>, \<^verbatim>\<open>set.add\<close>, \<^verbatim>\<open>print\<close>) takes none. The result is the set as
  the scan leaves it and the exception, if one was raised: an exception ends the
  traversal, and what was added before stays.
\<close>

definition is_dict_or_list :: "json \<Rightarrow> bool" where
  \<comment> \<open>\<^verbatim>\<open>isinstance(value, (dict, list))\<close>\<close>
  "is_dict_or_list v = (case v of JObj kvs \<Rightarrow> True | JArr xs \<Rightarrow> True | _ \<Rightarrow> False)"

fun find_images_in_json :: "nat \<Rightarrow> json \<Rightarrow> string list \<Rightarrow> string list \<times> py_error option"
  and find_images_in_items :: "nat \<Rightarrow> (string \<times> json) list \<Rightarrow> string list \<Rightarrow> string list \<times> py_error option"
  and find_images_in_list :: "nat \<Rightarrow> json list \<Rightarrow> string list \<Rightarrow> string list \<times> py_error option"
where
  "find_images_in_json fr (JObj kvs) found =
     (if fr = 0 then (found, Some RecursionError) else find_images_in_items (fr - 1) kvs found)"
| "find_images_in_json fr (JArr xs) found =
     (if fr = 0 then (found, Some RecursionError) else find_images_in_list (fr - 1) xs found)"
| "find_images_in_json fr JNull found = (found, if fr = 0 then Some RecursionError else None)"
| "find_images_in_json fr (JBool b) found = (found, if fr = 0 then Some RecursionError else None)"
| "find_images_in_json fr (JInt n) found = (found, if fr = 0 then Some RecursionError else None)"
| "find_images_in_json fr (JFloat r) found = (found, if fr = 0 then Some RecursionError else None)"
| "find_images_in_json fr (JStr s) found = (found, if fr = 0 then Some RecursionError else None)"
| "find_images_in_items below [] found = (found, None)"
| "find_images_in_items below ((key, v) # kvs) found =
     (if key \<in> set image_keys then
        (case v of
           JStr s \<Rightarrow>
             if below < 2 then (found, Some RecursionError)
             else find_images_in_items below kvs
                    (if is_spotify_image_url (JStr s) = Inr True then set_add s found else found)
         | _ \<Rightarrow> find_images_in_items below kvs found)
      else if is_dict_or_list v then
        (case find_images_in_json below v found of
           (found', None) \<Rightarrow> find_images_in_items below kvs found'
         | (found', Some err) \<Rightarrow> (found', Some err))
      else find_images_in_items below kvs found)"
| "find_images_in_list below [] found = (found, None)"
| "find_images_in_list below (x # xs) found =
     (case find_images_in_json below x found of
        (found', None) \<Rightarrow> find_images_in_list below xs found'
      | (found', Some err) \<Rightarrow> (found', Some err))"

definition image_id_patterns :: "(string \<times> nat) list" where
  \<comment> \<open>each pattern is a literal followed by \<^verbatim>\<open>[a-f0-9]{n}\<close>\<close>
  "image_id_patterns = [(''ab67616'', 32), (''ab6761610000'', 24), (''ab67616d'', 32)]"

definition image_urls :: "string \<Rightarrow> string list" where
  "image_urls m =
     [''https://i.scdn.co/image/'' @ m,
      ''https://mosaic.scdn.co/640/'' @ m,
      ''https://mosaic.scdn.co/300/'' @ m]"

definition find_image_patterns_in_text :: "string \<Rightarrow> string list \<Rightarrow> string list" where
  "find_image_patterns_in_text text found =
     foldl (\<lambda>found pat.
        foldl (\<lambda>found m. foldl (\<lambda>found img_url. set_add img_url found) found (image_urls m))
          found (findall_hex (fst pat) (snd pat) text))
       found image_id_patterns"

section \<open>Media candidates and the environment\<close>

text \<open>
  A candidate is the dict \<^verbatim>\<open>media_info\<close>. The record has the keys the program reads
  back: a key that may be absent is an option, and the flag \<^verbatim>\<open>is_video_segment\<close> is
  read with \<^verbatim>\<open>.get\<close>, so absent and false coincide. The keys \<^verbatim>\<open>method\<close>,
  \<^verbatim>\<open>status\<close>, \<^verbatim>\<open>size\<close>, \<^verbatim>\<open>timestamp\<close>, \<^verbatim>\<open>headers\<close>, \<^verbatim>\<open>content\<close> and
  \<^verbatim>\<open>decoded_size\<close> are only copied into the report; the model evaluates the
  expressions that compute them, for the exceptions they raise, and does not store them.
\<close>

datatype segment_role = Init | Media | Unknown

record media_info =
  url :: json
  content_type :: json
  decoded_data :: "bytes option"
  is_video_segment :: bool
  segment_data :: "bytes option"
  segment_type :: "segment_role option"

text \<open>
  What the program gets from outside: the HTTP client, the standard library's URL, JSON,
  base64 and UTF-8 functions, the clock, the file system and the transcoder. \<open>None\<close>
  stands for the call raising an exception. \<open>stack_frames\<close> is the number of frames the
  interpreter can still enter where \<^verbatim>\<open>extract_api_image_references\<close> calls the
  structured scan: the recursion limit less the depth of the stack there.
\<close>

record http_response =
  status_code :: int
  body :: bytes
  header_content_type :: string

record env =
  http_get :: "string \<Rightarrow> http_response option"
  urlparse_path :: "string \<Rightarrow> string option"
  clock :: int
  file_write :: "string \<Rightarrow> bool"
  ffmpeg_ok :: "string \<Rightarrow> string \<Rightarrow> bool"
  b64decode :: "string \<Rightarrow> bytes option"
  utf8_decode :: "bytes \<Rightarrow> string option"
  json_loads :: "string \<Rightarrow> json option"
  stack_frames :: nat

definition path_join :: "string \<Rightarrow> string \<Rightarrow> string" where
  \<comment> \<open>\<^verbatim>\<open>os.path.join\<close> of a folder and a relative name\<close>
  "path_join folder name = folder @ ''/'' @ name"

definition output_folder :: string where
  "output_folder = ''har_extracted''"

definition images_folder :: string where
  "images_folder = path_join output_folder ''images''"

definition videos_folder :: string where
  "videos_folder = path_join output_folder ''videos''"

definition data_folder :: string where
  "data_folder = path_join output_folder ''data''"

section \<open>Resolution: \<^verbatim>\<open>generate_filename\<close>, \<^verbatim>\<open>save_embedded_media\<close>, \<^verbatim>\<open>download_media\<close>\<close>

definition keeps_char :: "char \<Rightarrow> bool" where
  \<comment> \<open>the characters that \<^verbatim>\<open>[^\w\-_.]\<close> does not match\<close>
  "keeps_char c = (is_word_char c \<or> c = CHR ''-'' \<or> c = CHR ''_'' \<or> c = CHR ''.'')"

definition base_name_of :: "env \<Rightarrow> string \<Rightarrow> string" where
  \<comment> \<open>\<^verbatim>\<open>base_name\<close> from the path of the parsed URL\<close>
  "base_name_of e path =
     (let path_parts = split_chr CHR ''/'' (strip_chr CHR ''/'' path) in
      if path_parts \<noteq> [] \<and> last path_parts \<noteq> []
      then rsplit1_head CHR ''.'' (last path_parts)
      else ''spotify_media_'' @ str_int (clock e))"

definition generate_filename :: "env \<Rightarrow> string \<Rightarrow> string \<Rightarrow> py_error + string" where
  "generate_filename e u ext =
     (case urlparse_path e u of
        None \<Rightarrow> Inl ValueError
      | Some path \<Rightarrow>
          (let safe_name = map (\<lambda>c. if keeps_char c then c else CHR ''_'') (base_name_of e path)
           in Inr (safe_name @ ext)))"

text \<open>The character set \<^verbatim>\<open>[A-Za-z0-9_.-]\<close> and the ASCII range.\<close>

definition safe_char :: "char \<Rightarrow> bool" where
  "safe_char c = (is_ascii_alnum c \<or> c = CHR ''_'' \<or> c = CHR ''.'' \<or> c = CHR ''-'')"

definition is_ascii :: "char \<Rightarrow> bool" where
  "is_ascii c = ((of_char c :: nat) < 128)"

definition is_video_kind :: "json \<Rightarrow> string \<Rightarrow> py_error + bool" where
  \<comment> \<open>\<^verbatim>\<open>'video' in content_type or ext in ['.webm', '.mp4']\<close>\<close>
  "is_video_kind ct ext =
     bind (str_in ''video'' ct) (\<lambda>b. Inr (b \<or> ext \<in> set [''.webm'', ''.mp4'']))"

text \<open>
  Every statement of \<^verbatim>\<open>save_embedded_media\<close> is inside its \<^verbatim>\<open>try\<close>: an exception
  gives \<^verbatim>\<open>None\<close>. The URL goes to \<^verbatim>\<open>urlparse\<close>, which takes a string. The function
  does not write to the candidate.
\<close>

definition save_embedded_media :: "env \<Rightarrow> media_info \<Rightarrow> string option" where
  "save_embedded_media e m =
     (case decoded_data m of
        None \<Rightarrow> None
      | Some data \<Rightarrow>
          (case get_file_extension (content_type m) data of
             Inl err \<Rightarrow> None
           | Inr ext \<Rightarrow>
               (case url m of
                  JStr u \<Rightarrow>
                    (case generate_filename e u ext of
                       Inl err \<Rightarrow> None
                     | Inr filename \<Rightarrow>
                         (case is_video_kind (content_type m) ext of
                            Inl err \<Rightarrow> None
                          | Inr video \<Rightarrow>
                              (let filepath = path_join (if video then videos_folder else images_folder) filename
                               in if file_write e filepath then Some filepath else None)))
                | _ \<Rightarrow> None)))"

definition classify_segment :: "string \<Rightarrow> segment_role" where
  "classify_segment u =
     (if contains u ''inits'' then Init
      else if contains u ''/0.webm'' \<or> contains u ''/1.webm'' \<or> contains u ''/2.webm'' then Media
      else Unknown)"

text \<open>
  \<^verbatim>\<open>download_media\<close> returns the candidate as it leaves it and the path (\<open>None\<close> for
  \<^verbatim>\<open>None\<close>). A URL that is not a string is refused by the HTTP client. The segment keys
  are written before the file is, so they stay when the write fails.
\<close>

definition download_media :: "env \<Rightarrow> media_info \<Rightarrow> media_info \<times> string option" where
  "download_media e m =
     (if decoded_data m \<noteq> None then (m, save_embedded_media e m)
      else
        (case url m of
           JStr u \<Rightarrow>
             (case http_get e u of
                None \<Rightarrow> (m, None)
              | Some response \<Rightarrow>
                  if status_code response = 200 \<and> length (body response) > 100 then
                    (let ct = lower (header_content_type response) in
                     case get_file_extension (JStr ct) (body response) of
                       Inl err \<Rightarrow> (m, None)
                     | Inr ext \<Rightarrow>
                         (case generate_filename e u ext of
                            Inl err \<Rightarrow> (m, None)
                          | Inr filename \<Rightarrow>
                              if contains ct ''video'' \<or> ext \<in> set [''.webm'', ''.mp4'']
                                 \<or> contains u ''video-akpcw.spotifycdn.com''
                              then
                                (let filepath = path_join videos_folder filename;
                                     m' = (if contains (lower u) ''webm'' \<or> ext = ''.webm''
                                           then m\<lparr>is_video_segment := True,
                                                  segment_data := Some (body response),
                                                  segment_type := Some (classify_segment u)\<rparr>
                                           else m)
                                 in (m', if file_write e filepath then Some filepath else None))
                              else
                                (let filepath = path_join images_folder filename
                                 in (m, if file_write e filepath then Some filepath else None))))
                  else (m, None))
         | _ \<Rightarrow> (m, None)))"

section \<open>Assembly: \<^verbatim>\<open>extract_segment_number\<close>, \<^verbatim>\<open>convert_to_mp4\<close>, \<^verbatim>\<open>combine_webm_segments\<close>\<close>

definition extract_segment_number :: "string \<Rightarrow> nat" where
  "extract_segment_number u =
     (case search_run ''/'' is_digit ''.webm'' u of
        Some ds \<Rightarrow> int_of_digits ds
      | None \<Rightarrow> 0)"

text \<open>\<^verbatim>\<open>s.replace(old, new)\<close> for a non-empty \<open>old\<close>: every occurrence, from the left.\<close>

function replace_all :: "string \<Rightarrow> string \<Rightarrow> string \<Rightarrow> string" where
  "replace_all old new [] = []"
| "replace_all old new (c # cs) =
     (if old \<noteq> [] \<and> startswith (c # cs) old
      then new @ replace_all old new (drop (length old - 1) cs)
      else c # replace_all old new cs)"
  by pat_completeness auto
termination
  by (relation "measure (\<lambda>(old, new, s). length s)") auto

definition convert_to_mp4 :: "env \<Rightarrow> string \<Rightarrow> string option" where
  "convert_to_mp4 e webm_path =
     (let mp4_path = replace_all ''.webm'' ''.mp4'' webm_path
      in if ffmpeg_ok e webm_path mp4_path then Some mp4_path else None)"

text \<open>
  \<^verbatim>\<open>segment_groups\<close> is a dict in insertion order: group key to the init candidate (the
  last one seen) and the list of the other candidates, in the order of the input.
\<close>

type_synonym segment_group = "media_info option \<times> media_info list"

fun add_to_group :: "string \<Rightarrow> media_info \<Rightarrow> (string \<times> segment_group) list \<Rightarrow> (string \<times> segment_group) list" where
  "add_to_group k m [] =
     [(k, if segment_type m = Some Init then (Some m, []) else (None, [m]))]"
| "add_to_group k m ((k', g) # gs) =
     (if k' = k
      then (k', if segment_type m = Some Init then (Some m, snd g) else (fst g, snd g @ [m])) # gs
      else (k', g) # add_to_group k m gs)"

text \<open>\<^verbatim>\<open>re.search\<close> takes a string: any other argument raises \<^verbatim>\<open>TypeError\<close>.\<close>

definition group_key_of :: "json \<Rightarrow> py_error + string option" where
  "group_key_of j =
     (case j of
        JStr u \<Rightarrow>
          (case search_run ''sources/'' is_lower_hex ''/'' u of
             None \<Rightarrow> Inr None
           | Some source_id \<Rightarrow>
               (case search_run ''profiles/'' is_digit ''/'' u of
                  None \<Rightarrow> Inr None
                | Some profile_id \<Rightarrow> Inr (Some (source_id @ ''_profile_'' @ profile_id))))
      | _ \<Rightarrow> Inl TypeError)"

text \<open>The first loop is outside any \<^verbatim>\<open>try\<close>: an exception leaves the function.\<close>

fun group_segments :: "media_info list \<Rightarrow> (string \<times> segment_group) list \<Rightarrow> py_error + (string \<times> segment_group) list" where
  "group_segments [] gs = Inr gs"
| "group_segments (m # ms) gs =
     (if is_video_segment m then
        bind (str_in ''video-akpcw.spotifycdn.com'' (url m)) (\<lambda>on_host.
          if on_host then
            bind (group_key_of (url m)) (\<lambda>key.
              case key of
                None \<Rightarrow> group_segments ms gs
              | Some k \<Rightarrow> group_segments ms (add_to_group k m gs))
          else group_segments ms gs)
      else group_segments ms gs)"

definition segment_number :: "media_info \<Rightarrow> nat" where
  \<comment> \<open>the sort key \<^verbatim>\<open>extract_segment_number(x['url'])\<close> on a candidate with a string URL\<close>
  "segment_number m = (case url m of JStr u \<Rightarrow> extract_segment_number u | _ \<Rightarrow> 0)"

definition has_str_url :: "media_info \<Rightarrow> bool" where
  "has_str_url m = (case url m of JStr u \<Rightarrow> True | _ \<Rightarrow> False)"

fun append_segments :: "bytes \<Rightarrow> media_info list \<Rightarrow> bytes option" where
  "append_segments acc [] = Some acc"
| "append_segments acc (s # ss) =
     (case segment_data s of
        None \<Rightarrow> None
      | Some d \<Rightarrow> append_segments (acc @ d) ss)"

definition canvas_path :: "string \<Rightarrow> string" where
  \<comment> \<open>\<^verbatim>\<open>output_path\<close> of a group: \<^verbatim>\<open>spotify_canvas_{group_key}.webm\<close> in the videos folder\<close>
  "canvas_path k = path_join videos_folder (''spotify_canvas_'' @ k @ ''.webm'')"

text \<open>
  One turn of the second loop: the returned paths and the file written, as path and
  bytes. The body is inside a \<^verbatim>\<open>try\<close>: an exception (a sort key on a URL that is not
  a string, a missing \<^verbatim>\<open>segment_data\<close>, a failed write) skips the group.
\<close>

definition combine_group :: "env \<Rightarrow> string \<times> segment_group \<Rightarrow> string list \<times> (string \<times> bytes) list" where
  "combine_group e kg =
     (let group_key = fst kg; init_segment = fst (snd kg); segments = snd (snd kg) in
      if \<not> list_all has_str_url segments then ([], [])
      else
        (let media_segments = sort_key segment_number segments in
         case init_segment of
           None \<Rightarrow> ([], [])
         | Some init \<Rightarrow>
             if media_segments = [] then ([], [])
             else
               (case segment_data init of
                  None \<Rightarrow> ([], [])
                | Some init_data \<Rightarrow>
                    (case append_segments init_data media_segments of
                       None \<Rightarrow> ([], [])
                     | Some combined_data \<Rightarrow>
                         (let output_path = canvas_path group_key
                          in if file_write e output_path
                             then (output_path #
                                     (case convert_to_mp4 e output_path of
                                        None \<Rightarrow> []
                                      | Some mp4_path \<Rightarrow> [mp4_path]),
                                   [(output_path, combined_data)])
                             else ([], []))))))"

definition combine_webm_segments :: "env \<Rightarrow> media_info list \<Rightarrow> py_error + string list \<times> (string \<times> bytes) list" where
  "combine_webm_segments e extracted_media =
     bind (group_segments extracted_media []) (\<lambda>segment_groups.
       Inr (concat (map (\<lambda>kg. fst (combine_group e kg)) segment_groups),
            concat (map (\<lambda>kg. snd (combine_group e kg)) segment_groups)))"

text \<open>
  The candidates that the first loop puts into the group \<open>k\<close>: flagged as video segment,
  with a string URL on the segment host in which both patterns match.
\<close>

definition in_group :: "string \<Rightarrow> media_info \<Rightarrow> bool" where
  "in_group k m =
     (is_video_segment m \<and>
      (case url m of
         JStr u \<Rightarrow> contains u ''video-akpcw.spotifycdn.com'' \<and> group_key_of (JStr u) = Inr (Some k)
       | _ \<Rightarrow> False))"

definition is_init :: "media_info \<Rightarrow> bool" where
  "is_init m = (segment_type m = Some Init)"

definition data_of :: "media_info \<Rightarrow> bytes" where
  "data_of m = (case segment_data m of Some d \<Rightarrow> d | None \<Rightarrow> [])"

text \<open>The first loop on candidates that all have the key \<open>k\<close>.\<close>

fun add_all :: "string \<Rightarrow> media_info list \<Rightarrow> (string \<times> segment_group) list \<Rightarrow> (string \<times> segment_group) list" where
  "add_all k [] gs = gs"
| "add_all k (m # ms) gs = add_all k ms (add_to_group k m gs)"

text \<open>A candidate that carries none of the segment keys.\<close>

definition unflagged :: "media_info \<Rightarrow> bool" where
  "unflagged m = (\<not> is_video_segment m \<and> segment_data m = None \<and> segment_type m = None)"

section \<open>Classification: \<^verbatim>\<open>get_content_type\<close>, \<^verbatim>\<open>extract_api_image_references\<close>, \<^verbatim>\<open>extract_spotify_images\<close>\<close>

fun scan_headers :: "json list \<Rightarrow> py_error + json" where
  "scan_headers [] = Inr (JStr [])"
| "scan_headers (header # hs) =
     bind (py_get header ''name'' (JStr [])) (\<lambda>name.
       case name of
         JStr n \<Rightarrow>
           if lower n = ''content-type'' then py_get header ''value'' (JStr [])
           else scan_headers hs
       | _ \<Rightarrow> Inl AttributeError)"

definition get_content_type :: "json \<Rightarrow> py_error + json" where
  "get_content_type response =
     bind (py_get response ''headers'' (JArr [])) (\<lambda>headers.
     bind (py_iter headers) scan_headers)"

text \<open>
  \<^verbatim>\<open>extract_api_image_references\<close> catches every exception and returns nothing; what it
  added to \<^verbatim>\<open>found_urls\<close> stays. The bare \<^verbatim>\<open>except\<close> around the parser and the structured
  scan also catches the \<^verbatim>\<open>RecursionError\<close> of the scan, and the free-text scan then runs
  on the same text, with the set as the scan left it. The stack is unwound by then; the
  free-text scan does not recurse and is taken to fit in it. A text that is not a string makes the decoder, the
  parser and then \<^verbatim>\<open>re.findall\<close> raise, so nothing is added for it.
\<close>

definition extract_api_image_references :: "env \<Rightarrow> json \<Rightarrow> string list \<Rightarrow> string list" where
  "extract_api_image_references e entry found =
     (case bind (py_get entry ''response'' (JObj [])) (\<lambda>response.
           bind (py_get response ''content'' (JObj [])) (\<lambda>content.
           bind (py_get content ''text'' JNull) (\<lambda>text.
           bind (py_get content ''encoding'' JNull) (\<lambda>encoding. Inr (text, encoding))))) of
        Inl err \<Rightarrow> found
      | Inr (text, encoding) \<Rightarrow>
          if \<not> truthy text then found
          else
            (case text of
               JStr t \<Rightarrow>
                 (case (if encoding = JStr ''base64''
                        then (case b64decode e t of None \<Rightarrow> None | Some raw \<Rightarrow> utf8_decode e raw)
                        else Some t) of
                    None \<Rightarrow> found
                  | Some t' \<Rightarrow>
                      (case json_loads e t' of
                         Some json_data \<Rightarrow>
                           (case find_images_in_json (stack_frames e) json_data found of
                              (found', None) \<Rightarrow> found'
                            | (found', Some err) \<Rightarrow> find_image_patterns_in_text t' found')
                       | None \<Rightarrow> find_image_patterns_in_text t' found))
             | _ \<Rightarrow> found))"

text \<open>
  The embedded payload of an entry: \<^verbatim>\<open>decoded_data\<close> is set when the content is a
  non-empty dict with a truthy text, the encoding \<^verbatim>\<open>base64\<close>, and the decoder accepts
  the text; a failed decode is caught. A truthy content that is not a dict raises.
  The image branch and the video branch test the same things in a different order.
\<close>

definition embedded_payload :: "env \<Rightarrow> json \<Rightarrow> py_error + bytes option" where
  "embedded_payload e response =
     bind (py_get response ''content'' (JObj [])) (\<lambda>content.
       if truthy content then
         bind (py_get content ''encoding'' JNull) (\<lambda>encoding.
         bind (py_get content ''text'' JNull) (\<lambda>text.
           Inr (if encoding = JStr ''base64'' \<and> truthy text
                then (case text of JStr t \<Rightarrow> b64decode e t | _ \<Rightarrow> None)
                else None)))
       else Inr None)"

definition candidate_info :: "env \<Rightarrow> json \<Rightarrow> json \<Rightarrow> py_error + media_info" where
  \<comment> \<open>the dict literal \<^verbatim>\<open>image_info\<close> / \<^verbatim>\<open>video_info\<close> and the statements up to \<^verbatim>\<open>append\<close>\<close>
  "candidate_info e response u =
     bind (py_get response ''status'' (JInt 0)) (\<lambda>status.
     bind (get_content_type response) (\<lambda>ct.
     bind (embedded_payload e response) (\<lambda>decoded.
       Inr \<lparr>url = u, content_type = ct, decoded_data = decoded,
            is_video_segment = False, segment_data = None, segment_type = None\<rparr>)))"

text \<open>
  One turn of the loop over the entries, without its \<^verbatim>\<open>try\<close>: the new
  \<^verbatim>\<open>found_urls\<close> and the candidate appended, if any.
\<close>

definition process_entry :: "env \<Rightarrow> json \<Rightarrow> string list \<Rightarrow> py_error + string list \<times> media_info option" where
  "process_entry e entry found =
     bind (py_get entry ''request'' (JObj [])) (\<lambda>request.
     bind (py_get entry ''response'' (JObj [])) (\<lambda>response.
     bind (py_get request ''url'' (JStr [])) (\<lambda>u.
     bind (is_spotify_image_url u) (\<lambda>is_image.
       if is_image then bind (candidate_info e response u) (\<lambda>info. Inr (found, Some info))
       else
         bind (is_spotify_video_url u) (\<lambda>is_video.
           if is_video then bind (candidate_info e response u) (\<lambda>info. Inr (found, Some info))
           else
             bind (str_in ''api.spotify.com'' u) (\<lambda>api.
             bind (if api then Inr True else str_in ''spclient'' u) (\<lambda>api_or_client.
               Inr (if api_or_client then extract_api_image_references e entry found else found,
                    None))))))))"

fun process_entries :: "env \<Rightarrow> json list \<Rightarrow> string list \<Rightarrow> media_info list \<Rightarrow> media_info list \<times> string list" where
  "process_entries e [] found images = (images, found)"
| "process_entries e (entry # es) found images =
     (case process_entry e entry found of
        Inl err \<Rightarrow> process_entries e es found images
      | Inr (found', None) \<Rightarrow> process_entries e es found' images
      | Inr (found', Some info) \<Rightarrow> process_entries e es found' (images @ [info]))"

text \<open>
  The guard and the two subscripts are outside any \<^verbatim>\<open>try\<close>. \<^verbatim>\<open>len(entries)\<close> and the
  loop raise on the same values.
\<close>

definition invalid_har_format :: "json \<Rightarrow> py_error + bool" where
  \<comment> \<open>\<^verbatim>\<open>'log' not in har_data or 'entries' not in har_data['log']\<close>\<close>
  "invalid_har_format har_data =
     bind (str_in ''log'' har_data) (\<lambda>has_log.
       if \<not> has_log then Inr True
       else bind (py_getitem har_data ''log'') (\<lambda>log.
            bind (str_in ''entries'' log) (\<lambda>has_entries. Inr (\<not> has_entries))))"

definition extract_spotify_images :: "env \<Rightarrow> json \<Rightarrow> string list \<Rightarrow> py_error + media_info list \<times> string list" where
  "extract_spotify_images e har_data found =
     bind (invalid_har_format har_data) (\<lambda>invalid.
       if invalid then Inr ([], found)
       else
         bind (py_getitem har_data ''log'') (\<lambda>log.
         bind (py_getitem log ''entries'') (\<lambda>entries.
         bind (py_iter entries) (\<lambda>es.
           Inr (process_entries e es found [])))))"

text \<open>
  The shape of an entry in the capture format: an object whose request is an object with
  a string URL, and whose response, if present, is an object with a list of headers
  (objects, the name a string) and a content that is an object. \<open>request_url\<close> is the
  expression \<^verbatim>\<open>entry.get('request', {}).get('url', '')\<close>.
\<close>

definition wf_header :: "json \<Rightarrow> bool" where
  "wf_header h =
     (case h of
        JObj kv \<Rightarrow> (case map_of kv ''name'' of None \<Rightarrow> True | Some (JStr n) \<Rightarrow> True | Some _ \<Rightarrow> False)
      | _ \<Rightarrow> False)"

definition wf_response :: "json \<Rightarrow> bool" where
  "wf_response r =
     (case r of
        JObj kv \<Rightarrow>
          (case map_of kv ''headers'' of
             None \<Rightarrow> True | Some (JArr hs) \<Rightarrow> list_all wf_header hs | Some _ \<Rightarrow> False)
          \<and> (case map_of kv ''content'' of
               None \<Rightarrow> True | Some (JObj c) \<Rightarrow> True | Some _ \<Rightarrow> False)
      | _ \<Rightarrow> False)"

definition wf_entry :: "json \<Rightarrow> bool" where
  "wf_entry entry =
     (case entry of
        JObj kv \<Rightarrow>
          (case map_of kv ''request'' of
             Some (JObj rq) \<Rightarrow> (case map_of rq ''url'' of Some (JStr u) \<Rightarrow> True | _ \<Rightarrow> False)
           | _ \<Rightarrow> False)
          \<and> (case map_of kv ''response'' of None \<Rightarrow> True | Some r \<Rightarrow> wf_response r)
      | _ \<Rightarrow> False)"

definition request_url :: "json \<Rightarrow> json" where
  "request_url entry =
     (case bind (py_get entry ''request'' (JObj [])) (\<lambda>request. py_get request ''url'' (JStr [])) of
        Inr u \<Rightarrow> u
      | Inl err \<Rightarrow> JNull)"

section \<open>The run: \<^verbatim>\<open>save_analysis_report\<close>, \<^verbatim>\<open>process_har_data\<close>\<close>

text \<open>
  Of the report the model keeps the path and the exceptions: the chained \<^verbatim>\<open>.get\<close> on
  the document, \<^verbatim>\<open>len\<close> of the entries, the \<^verbatim>\<open>in\<close> tests on each content type, and the
  write. Nothing in \<^verbatim>\<open>save_analysis_report\<close> is inside a \<^verbatim>\<open>try\<close>.
\<close>

definition report_path :: "env \<Rightarrow> string" where
  \<comment> \<open>\<^verbatim>\<open>har_analysis_{int(time.time())}.json\<close> in the data folder\<close>
  "report_path e = path_join data_folder (''har_analysis_'' @ str_int (clock e) @ ''.json'')"

fun content_types_checked :: "media_info list \<Rightarrow> py_error + unit" where
  "content_types_checked [] = Inr ()"
| "content_types_checked (m # ms) =
     bind (str_in ''image'' (content_type m)) (\<lambda>b. content_types_checked ms)"

definition save_analysis_report :: "env \<Rightarrow> json \<Rightarrow> media_info list \<Rightarrow> py_error + string" where
  "save_analysis_report e har_data extracted_media =
     (let report_file = report_path e in
      bind (py_get har_data ''log'' (JObj [])) (\<lambda>log.
      bind (py_get log ''version'' (JStr [])) (\<lambda>version.
      bind (py_get log ''entries'' (JArr [])) (\<lambda>entries.
      bind (py_iter entries) (\<lambda>es.
      bind (content_types_checked extracted_media) (\<lambda>checked.
        if file_write e report_file then Inr report_file else Inl OSError))))))"

record results =
  success :: bool
  total_media_found :: nat
  downloaded_files :: "string list"
  combined_videos :: nat
  report_file :: string
  result_output_folder :: string

definition discovered_candidate :: "string \<Rightarrow> media_info" where
  \<comment> \<open>\<^verbatim>\<open>{'url': url, 'content_type': 'image/jpeg'}\<close>\<close>
  "discovered_candidate u =
     \<lparr>url = JStr u, content_type = JStr ''image/jpeg'', decoded_data = None,
      is_video_segment = False, segment_data = None, segment_type = None\<rparr>"

text \<open>
  \<^verbatim>\<open>process_har_data\<close> on a document and the \<^verbatim>\<open>found_urls\<close> of the extractor; it
  returns the result dict and the new \<^verbatim>\<open>found_urls\<close>. \<^verbatim>\<open>download_media\<close> writes into
  the dicts of the list, so the list after the loop holds the candidates as resolved.
  The discovered URLs are visited in the order of the model's list (Python leaves the
  order of a set open).
\<close>

definition process_har_data :: "env \<Rightarrow> json \<Rightarrow> string list \<Rightarrow> py_error + results \<times> string list" where
  "process_har_data e har_data found =
     bind (extract_spotify_images e har_data found) (\<lambda>extracted.
       let resolved = map (download_media e) (fst extracted);
           extracted_media = map fst resolved;
           found' = snd extracted
       in
       bind (combine_webm_segments e extracted_media) (\<lambda>combined.
         let discovered =
               List.map_filter
                 (\<lambda>u. if JStr u \<notin> set (map url extracted_media)
                      then snd (download_media e (discovered_candidate u)) else None)
                 found'
         in
         bind (save_analysis_report e har_data extracted_media) (\<lambda>report.
           Inr (\<lparr>success = True,
                 total_media_found = length extracted_media,
                 downloaded_files = List.map_filter snd resolved @ fst combined @ discovered,
                 combined_videos = length (fst combined),
                 report_file = report,
                 result_output_folder = output_folder\<rparr>,
                found'))))"

section \<open>Inputs of the examples\<close>

text \<open>
  What \<^verbatim>\<open>urlparse(u).path\<close> is for the URLs of the examples: the scheme \<^verbatim>\<open>https://\<close>,
  a host and a path, without parameters, query or fragment.
\<close>

definition simple_url_path :: "string \<Rightarrow> string option" where
  "simple_url_path u = Some (dropWhile (\<lambda>c. c \<noteq> CHR ''/'') (drop 8 u))"

text \<open>An environment without network: every fetch and every decoder fails, writes succeed.\<close>

definition offline_env :: env where
  "offline_env =
     \<lparr>http_get = (\<lambda>u. None), urlparse_path = simple_url_path, clock = 17,
      file_write = (\<lambda>p. True), ffmpeg_ok = (\<lambda>a b. False), b64decode = (\<lambda>s. None),
      utf8_decode = (\<lambda>b. None), json_loads = (\<lambda>s. None), stack_frames = 990\<rparr>"

text \<open>A candidate as \<^verbatim>\<open>download_media\<close> leaves a fetched video segment.\<close>

definition segment_candidate :: "string \<Rightarrow> segment_role \<Rightarrow> bytes \<Rightarrow> media_info" where
  "segment_candidate u r d =
     \<lparr>url = JStr u, content_type = JStr [], decoded_data = None,
      is_video_segment = True, segment_data = Some d, segment_type = Some r\<rparr>"

definition segment_prefix :: string where
  "segment_prefix = ''https://video-akpcw.spotifycdn.com/sources/ab12/profiles/7/''"

text \<open>
  A server that answers every request with a WebM body of more than 100 bytes, and a
  base64 decoder that returns one byte. A candidate as \<^verbatim>\<open>extract_spotify_images\<close> builds
  it from an entry without headers.
\<close>

definition init_body :: bytes where
  "init_body = [0x1A, 0x45, 0xDF, 0xA3] @ replicate 100 0x01"

definition media_body :: bytes where
  "media_body = replicate 101 0x07"

definition segment_server :: "string \<Rightarrow> http_response option" where
  "segment_server u =
     Some \<lparr>status_code = 200,
           body = (if contains u ''inits'' then init_body else media_body),
           header_content_type = ''video/webm''\<rparr>"

definition segment_env :: env where
  "segment_env = offline_env\<lparr>http_get := segment_server, b64decode := (\<lambda>s. Some [0x2A])\<rparr>"

definition har_candidate :: "string \<Rightarrow> bytes option \<Rightarrow> media_info" where
  "har_candidate u payload =
     \<lparr>url = JStr u, content_type = JStr [], decoded_data = payload,
      is_video_segment = False, segment_data = None, segment_type = None\<rparr>"

text \<open>An entry of a capture document with a request URL and, optionally, a base64 body.\<close>

definition har_entry :: "string \<Rightarrow> string option \<Rightarrow> json" where
  "har_entry u text =
     JObj [(''request'', JObj [(''url'', JStr u)]),
           (''response'', JObj (case text of
               None \<Rightarrow> []
             | Some t \<Rightarrow> [(''content'', JObj [(''encoding'', JStr ''base64''), (''text'', JStr t)])]))]"

definition har_document :: "json list \<Rightarrow> json" where
  "har_document entries = JObj [(''log'', JObj [(''entries'', JArr entries)])]"

text \<open>One entry for each image host, the host name as URL; an entry whose response is \<^verbatim>\<open>null\<close>.\<close>

definition image_host_entries :: "json list" where
  "image_host_entries = map (\<lambda>u. har_entry u None) spotify_image_domains"

definition null_response_entry :: "string \<Rightarrow> json" where
  "null_response_entry u = JObj [(''request'', JObj [(''url'', JStr u)]), (''response'', JNull)]"

definition sample_text :: string where
  "sample_text = ''ab67616d00112233445566778899aabbccddeeff0011223344''"


section \<open>Basic facts\<close>

lemma get_file_extension_JStr:
  "get_file_extension (JStr ct) data =
     Inr (if contains ct ''jpeg'' \<or> contains ct ''jpg'' then ''.jpg''
          else if contains ct ''png'' then ''.png''
          else if contains ct ''gif'' then ''.gif''
          else if contains ct ''webp'' then ''.webp''
          else if contains ct ''webm'' then ''.webm''
          else if contains ct ''mp4'' then ''.mp4''
          else sniff_extension data)"
  unfolding get_file_extension_def bind_def by simp

lemma set_set_add: "set (set_add u found) = insert u (set found)"
  by (auto simp: set_add_def)

section \<open>Content-kind precedence\<close>

text \<open>
  C4, as stated, fails: a content type can contain \<^verbatim>\<open>png\<close> and also \<^verbatim>\<open>jpg\<close>, and the
  table tests \<^verbatim>\<open>jpeg\<close> and \<^verbatim>\<open>jpg\<close> before \<^verbatim>\<open>png\<close>. For the content type
  \<^verbatim>\<open>image/png; name=cover.jpg\<close> and bytes that start with the JPEG signature the
  result is \<^verbatim>\<open>.jpg\<close>, taken from the header.
\<close>

theorem png_header_with_jpg_token_counterexample:
  "contains ''image/png; name=cover.jpg'' ''png''
   \<and> startswith [0xFF, 0xD8, 0xFF, 0xE0 :: byte] [0xFF, 0xD8, 0xFF]
   \<and> get_file_extension (JStr ''image/png; name=cover.jpg'') [0xFF, 0xD8, 0xFF, 0xE0] \<noteq> Inr ''.png''
   \<and> get_file_extension (JStr ''image/png; name=cover.jpg'') [0xFF, 0xD8, 0xFF, 0xE0] = Inr ''.jpg''"
  by (simp add: get_file_extension_JStr startswith_def)

text \<open>
  C4, amended: when the content type contains \<^verbatim>\<open>png\<close> and neither \<^verbatim>\<open>jpeg\<close> nor
  \<^verbatim>\<open>jpg\<close>, and the bytes start with the JPEG signature FF D8 FF, the kind is
  \<^verbatim>\<open>.png\<close>. The header decides alone: the result is the same for any other bytes,
  although sniffing these bytes would give \<^verbatim>\<open>.jpg\<close>.
\<close>

theorem png_header_wins_over_jpeg_signature:
  assumes "contains ct ''png''" and "\<not> contains ct ''jpeg''" and "\<not> contains ct ''jpg''"
    and "startswith data [0xFF, 0xD8, 0xFF]"
  shows "get_file_extension (JStr ct) data = Inr ''.png''
       \<and> get_file_extension (JStr ct) other_data = Inr ''.png''
       \<and> sniff_extension data = ''.jpg''"
  using assms by (simp add: get_file_extension_JStr sniff_extension_def)

theorem png_header_wins_over_jpeg_signature_witness:
  "get_file_extension (JStr ''image/png'') [0xFF, 0xD8, 0xFF, 0xE0] = Inr ''.png''
   \<and> get_file_extension (JStr ''image/png'') [] = Inr ''.png''
   \<and> sniff_extension [0xFF, 0xD8, 0xFF, 0xE0] = ''.jpg''"
  using png_header_wins_over_jpeg_signature [of "''image/png''" "[0xFF, 0xD8, 0xFF, 0xE0]" "[]"]
  by (simp add: startswith_def)

section \<open>The free-text scan on the sample identifier\<close>

lemma findall_first_pattern:
  "findall_hex ''ab67616'' 32 sample_text = [''ab67616d00112233445566778899aabbccddeef'']"
  by (simp add: sample_text_def match_hex_at_def startswith_def is_lower_hex_def)

lemma findall_second_pattern:
  "findall_hex ''ab6761610000'' 24 sample_text = []"
  by (simp add: sample_text_def match_hex_at_def startswith_def is_lower_hex_def)

lemma findall_third_pattern:
  "findall_hex ''ab67616d'' 32 sample_text = [''ab67616d00112233445566778899aabbccddeeff'']"
  by (simp add: sample_text_def match_hex_at_def startswith_def is_lower_hex_def)

text \<open>
  C3, as stated, fails: the text matches two of the three patterns. The first pattern,
  \<^verbatim>\<open>ab67616[a-f0-9]{32}\<close>, matches the first 39 characters, and the third,
  \<^verbatim>\<open>ab67616d[a-f0-9]{32}\<close>, the first 40. Each match gives three URLs, so the scan of
  an empty set leaves six URLs, not the three of the 40-character identifier.
\<close>

theorem sample_text_six_urls_counterexample:
  "find_image_patterns_in_text sample_text [] =
     [''https://i.scdn.co/image/ab67616d00112233445566778899aabbccddeef'',
      ''https://mosaic.scdn.co/640/ab67616d00112233445566778899aabbccddeef'',
      ''https://mosaic.scdn.co/300/ab67616d00112233445566778899aabbccddeef'',
      ''https://i.scdn.co/image/ab67616d00112233445566778899aabbccddeeff'',
      ''https://mosaic.scdn.co/640/ab67616d00112233445566778899aabbccddeeff'',
      ''https://mosaic.scdn.co/300/ab67616d00112233445566778899aabbccddeeff'']
   \<and> ''https://i.scdn.co/image/ab67616d00112233445566778899aabbccddeef''
       \<notin> set (image_urls ''ab67616d00112233445566778899aabbccddeeff'')"
  by (simp add: find_image_patterns_in_text_def image_id_patterns_def findall_first_pattern
      findall_second_pattern findall_third_pattern set_add_def image_urls_def)

text \<open>
  C3, amended: the scan of the sample text adds exactly six URLs to the discovered set,
  the three templates applied to the 39-character match of the first pattern and to the
  40-character match of the third pattern, and nothing else.
\<close>

theorem sample_text_adds_six_urls:
  "set (find_image_patterns_in_text sample_text found) =
     set found
     \<union> set (image_urls ''ab67616d00112233445566778899aabbccddeef'')
     \<union> set (image_urls ''ab67616d00112233445566778899aabbccddeeff'')"
  by (auto simp: find_image_patterns_in_text_def image_id_patterns_def findall_first_pattern
      findall_second_pattern findall_third_pattern set_set_add image_urls_def)

theorem sample_text_adds_six_urls_witness:
  "set (find_image_patterns_in_text sample_text [''https://i.scdn.co/image/x'']) =
     set [''https://i.scdn.co/image/x'']
     \<union> set (image_urls ''ab67616d00112233445566778899aabbccddeef'')
     \<union> set (image_urls ''ab67616d00112233445566778899aabbccddeeff'')"
  using sample_text_adds_six_urls [of "[''https://i.scdn.co/image/x'']"] by simp

section \<open>The structured scan and its depth\<close>










section \<open>Generated file names\<close>

lemma digit_char_safe: "m < 10 \<Longrightarrow> safe_char (digit_chars ! m)"
proof -
  assume "m < 10"
  then have "digit_chars ! m \<in> set digit_chars" by (intro nth_mem) (simp add: digit_chars_def)
  then show ?thesis by (auto simp: digit_chars_def safe_char_def is_ascii_alnum_def)
qed

lemma str_nat_safe: "list_all safe_char (str_nat n)"
proof (induction n rule: str_nat.induct)
  case (1 n)
  show ?case
  proof (cases "n < 10")
    case True
    then show ?thesis by (subst str_nat.simps) (simp add: digit_char_safe)
  next
    case False
    then have "list_all safe_char (str_nat (n div 10))" using 1 by simp
    moreover have "safe_char (digit_chars ! (n mod 10))" by (rule digit_char_safe) simp
    ultimately show ?thesis using False by (subst str_nat.simps) simp
  qed
qed

lemma str_int_safe: "list_all safe_char (str_int i)"
  by (simp add: str_int_def str_nat_safe safe_char_def)

lemma keeps_char_cases: "keeps_char c \<longleftrightarrow> safe_char c \<or> is_latin1_alnum c"
  by (auto simp: keeps_char_def safe_char_def is_word_char_def)

lemma latin1_not_ascii: "is_latin1_alnum c \<Longrightarrow> \<not> is_ascii c"
  by (auto simp: is_latin1_alnum_def is_ascii_def Let_def)

lemma split_chr_nonempty: "split_chr d s \<noteq> []"
  by (induction s) (auto split: list.splits)

lemma split_chr_subset: "p \<in> set (split_chr d s) \<Longrightarrow> set p \<subseteq> set s"
proof (induction s arbitrary: p)
  case Nil
  then show ?case by simp
next
  case (Cons c cs)
  show ?case
  proof (cases "c = d")
    case True
    then show ?thesis using Cons by auto
  next
    case False
    obtain q qs where q: "split_chr d cs = q # qs"
      using split_chr_nonempty by (cases "split_chr d cs") auto
    then have "p = c # q \<or> p \<in> set qs" using Cons.prems False by simp
    moreover have "set q \<subseteq> set cs" using Cons.IH q by simp
    moreover have "p \<in> set qs \<Longrightarrow> set p \<subseteq> set cs" using Cons.IH q by simp
    ultimately show ?thesis by auto
  qed
qed

lemma strip_chr_subset: "set (strip_chr d s) \<subseteq> set s"
proof -
  have "set (dropWhile (\<lambda>c. c = d) (rev (dropWhile (\<lambda>c. c = d) s))) \<subseteq> set (dropWhile (\<lambda>c. c = d) s)"
    using set_dropWhileD by fastforce
  moreover have "set (dropWhile (\<lambda>c. c = d) s) \<subseteq> set s"
    using set_dropWhileD by fastforce
  ultimately show ?thesis by (simp add: strip_chr_def)
qed

lemma rsplit1_head_subset: "set (rsplit1_head d s) \<subseteq> set s"
proof -
  have tl_sub: "set (tl xs) \<subseteq> set xs" for xs :: string
    by (cases xs) auto
  have "set (tl (dropWhile (\<lambda>c. c \<noteq> d) (rev s))) \<subseteq> set (dropWhile (\<lambda>c. c \<noteq> d) (rev s))"
    by (rule tl_sub)
  moreover have "set (dropWhile (\<lambda>c. c \<noteq> d) (rev s)) \<subseteq> set (rev s)"
    using set_dropWhileD by fastforce
  ultimately show ?thesis by (auto simp: rsplit1_head_def)
qed

lemma known_extension_safe: "ext \<in> set known_extensions \<Longrightarrow> ext \<noteq> [] \<and> list_all safe_char ext"
  by (auto simp: known_extensions_def safe_char_def is_ascii_alnum_def)

lemma underscore_safe: "safe_char CHR ''_''"
  by (simp add: safe_char_def)

lemma sanitized_chars: "list_all (\<lambda>c. safe_char c \<or> is_latin1_alnum c) (map (\<lambda>c. if keeps_char c then c else CHR ''_'') b)"
  by (induction b) (simp_all add: keeps_char_cases underscore_safe)

lemma sanitized_ascii: "list_all is_ascii b \<Longrightarrow> list_all safe_char (map (\<lambda>c. if keeps_char c then c else CHR ''_'') b)"
  by (induction b) (auto simp: keeps_char_cases latin1_not_ascii underscore_safe)

lemma safe_char_ascii: "safe_char c \<Longrightarrow> is_ascii c"
  by (auto simp: safe_char_def is_ascii_def is_ascii_alnum_def)

lemma base_name_ascii: "list_all is_ascii path \<Longrightarrow> list_all is_ascii (base_name_of e path)"
proof -
  assume a: "list_all is_ascii path"
  let ?parts = "split_chr CHR ''/'' (strip_chr CHR ''/'' path)"
  have "last ?parts \<in> set ?parts" using split_chr_nonempty by simp
  then have "set (last ?parts) \<subseteq> set path"
    using split_chr_subset strip_chr_subset by blast
  then have "set (rsplit1_head CHR ''.'' (last ?parts)) \<subseteq> set path"
    using rsplit1_head_subset by blast
  then have 1: "list_all is_ascii (rsplit1_head CHR ''.'' (last ?parts))"
    using a by (auto simp: list_all_iff)
  have "list_all is_ascii (str_int (clock e))"
    using str_int_safe safe_char_ascii by (auto simp: list_all_iff)
  then have 2: "list_all is_ascii (''spotify_media_'' @ str_int (clock e))"
    by (simp add: is_ascii_def)
  show ?thesis using 1 2 by (simp add: base_name_of_def Let_def)
qed

lemma generate_filename_eq:
  "urlparse_path e u = Some path \<Longrightarrow>
   generate_filename e u ext = Inr (map (\<lambda>c. if keeps_char c then c else CHR ''_'') (base_name_of e path) @ ext)"
  by (simp add: generate_filename_def)

text \<open>
  C8, as stated, fails: \<^verbatim>\<open>\w\<close> in a \<^verbatim>\<open>str\<close> pattern also matches the letters and digits
  beyond ASCII, so the substitution keeps them. For the URL
  \<^verbatim>\<open>https://i.scdn.co/image/\<close> followed by the letter e with acute accent (code point
  E9) the file name is that letter followed by \<^verbatim>\<open>.jpg\<close>.
\<close>

theorem non_ascii_letter_kept_counterexample:
  "generate_filename offline_env (''https://i.scdn.co/image/'' @ [CHR 0xE9]) ''.jpg''
     = Inr (CHR 0xE9 # ''.jpg'')
   \<and> \<not> safe_char (CHR 0xE9)"
  by (simp add: generate_filename_def base_name_of_def offline_env_def simple_url_path_def
      strip_chr_def rsplit1_head_def keeps_char_def is_word_char_def is_latin1_alnum_def
      safe_char_def is_ascii_alnum_def Let_def)

text \<open>
  C8, amended: for every URL that \<^verbatim>\<open>urlparse\<close> accepts and every extension that
  \<^verbatim>\<open>get_file_extension\<close> can return, \<^verbatim>\<open>generate_filename\<close> returns a name that is not
  empty and whose characters are in \<^verbatim>\<open>[A-Za-z0-9_.-]\<close> or are alphanumeric characters
  beyond ASCII; when the path of the URL is ASCII, all of them are in
  \<^verbatim>\<open>[A-Za-z0-9_.-]\<close>.
\<close>

theorem generate_filename_charset:
  assumes "urlparse_path e u = Some path" and "ext \<in> set known_extensions"
  shows "\<exists>name. generate_filename e u ext = Inr name \<and> name \<noteq> []
           \<and> list_all (\<lambda>c. safe_char c \<or> is_latin1_alnum c) name
           \<and> (list_all is_ascii path \<longrightarrow> list_all safe_char name)"
proof -
  let ?san = "map (\<lambda>c. if keeps_char c then c else CHR ''_'') (base_name_of e path)"
  have e: "ext \<noteq> []" "list_all safe_char ext" using known_extension_safe assms(2) by auto
  have 1: "generate_filename e u ext = Inr (?san @ ext)" using assms(1) by (rule generate_filename_eq)
  have 2: "list_all (\<lambda>c. safe_char c \<or> is_latin1_alnum c) (?san @ ext)"
    using sanitized_chars[of "base_name_of e path"] e(2) by (auto simp: list_all_iff)
  have 3: "list_all is_ascii path \<longrightarrow> list_all safe_char (?san @ ext)"
    using sanitized_ascii[OF base_name_ascii, of path e] e(2) by simp
  show ?thesis using 1 2 3 e(1) by simp
qed

theorem generate_filename_charset_witness:
  "generate_filename offline_env ''https://i.scdn.co/image/ab67 c.d.jpeg'' ''.jpg'' = Inr ''ab67_c.d.jpg''
   \<and> list_all safe_char ''ab67_c.d.jpg''"
  using generate_filename_charset
    [of offline_env "''https://i.scdn.co/image/ab67 c.d.jpeg''" "''/image/ab67 c.d.jpeg''" "''.jpg''"]
  by (simp add: generate_filename_def base_name_of_def offline_env_def simple_url_path_def
      strip_chr_def rsplit1_head_def keeps_char_def is_word_char_def is_latin1_alnum_def
      safe_char_def is_ascii_alnum_def Let_def known_extensions_def)

section \<open>Assembly of one segment group\<close>

lemma group_segments_one_key:
  "\<forall>m\<in>set ms. in_group k m \<Longrightarrow> group_segments ms gs = Inr (add_all k ms gs)"
proof (induction ms arbitrary: gs)
  case Nil
  then show ?case by simp
next
  case (Cons m ms)
  then have "in_group k m" by simp
  then obtain u where u: "is_video_segment m" "url m = JStr u"
      "contains u ''video-akpcw.spotifycdn.com''" "group_key_of (JStr u) = Inr (Some k)"
    by (auto simp: in_group_def split: json.splits)
  then show ?case using Cons by (simp add: bind_def)
qed

lemma add_all_one_group:
  "add_all k ms [(k, (i, ss))] =
     [(k, (case filter is_init ms of [] \<Rightarrow> i | x # xs \<Rightarrow> Some (last (x # xs)),
           ss @ filter (\<lambda>m. \<not> is_init m) ms))]"
proof (induction ms arbitrary: i ss)
  case Nil
  then show ?case by simp
next
  case (Cons m ms)
  show ?case
  proof (cases "is_init m")
    case True
    then show ?thesis using Cons[of "Some m" ss]
      by (simp add: is_init_def split: list.splits)
  next
    case False
    then show ?thesis using Cons[of i "ss @ [m]"]
      by (simp add: is_init_def split: list.splits)
  qed
qed

lemma add_all_empty:
  "ms \<noteq> [] \<Longrightarrow> add_all k ms [] =
     [(k, (case filter is_init ms of [] \<Rightarrow> None | x # xs \<Rightarrow> Some (last (x # xs)),
           filter (\<lambda>m. \<not> is_init m) ms))]"
proof (cases ms)
  case Nil
  then show "ms \<noteq> [] \<Longrightarrow> ?thesis" by simp
next
  case (Cons m rest)
  show ?thesis
  proof (cases "is_init m")
    case True
    then show ?thesis using Cons add_all_one_group[of k rest "Some m" "[]"]
      by (simp add: is_init_def split: list.splits)
  next
    case False
    then show ?thesis using Cons add_all_one_group[of k rest None "[m]"]
      by (simp add: is_init_def split: list.splits)
  qed
qed

lemma append_segments_data:
  "\<forall>m\<in>set ss. segment_data m \<noteq> None \<Longrightarrow>
   append_segments acc ss = Some (acc @ concat (map data_of ss))"
  by (induction ss arbitrary: acc) (auto simp: data_of_def)

lemma in_group_has_str_url: "in_group k m \<Longrightarrow> has_str_url m"
  by (auto simp: in_group_def has_str_url_def split: json.splits)

lemma combine_one_group:
  assumes grp: "\<forall>m\<in>set ms. in_group k m"
    and dat: "\<forall>m\<in>set ms. segment_data m \<noteq> None"
    and ini: "filter is_init ms = inits" "inits \<noteq> []"
    and med: "filter (\<lambda>m. \<not> is_init m) ms \<noteq> []"
    and wr: "file_write e (canvas_path k)"
  shows "\<exists>paths. combine_webm_segments e ms =
           Inr (paths, [(canvas_path k,
                  data_of (last inits) @
                  concat (map data_of (sort_key segment_number (filter (\<lambda>m. \<not> is_init m) ms))))])"
proof -
  let ?segs = "filter (\<lambda>m. \<not> is_init m) ms"
  have ne: "ms \<noteq> []" using ini by auto
  obtain x xs where xs: "inits = x # xs" using ini(2) by (cases inits) auto
  have g: "group_segments ms [] = Inr [(k, (Some (last inits), ?segs))]"
    using group_segments_one_key[OF grp, of "[]"] add_all_empty[OF ne, of k] ini(1) xs by simp
  have li: "last inits \<in> set ms"
    using ini by (metis filter_is_subset last_in_set subsetD)
  have str: "list_all has_str_url ?segs"
    using grp in_group_has_str_url by (auto simp: list_all_iff)
  have sorted_ne: "sort_key segment_number ?segs \<noteq> []"
    using med by (metis length_0_conv length_sort)
  have idat: "segment_data (last inits) = Some (data_of (last inits))"
    using dat li by (auto simp: data_of_def)
  have app: "append_segments (data_of (last inits)) (sort_key segment_number ?segs) =
      Some (data_of (last inits) @ concat (map data_of (sort_key segment_number ?segs)))"
    by (rule append_segments_data) (use dat in auto)
  have "snd (combine_group e (k, (Some (last inits), ?segs))) =
      [(canvas_path k, data_of (last inits) @ concat (map data_of (sort_key segment_number ?segs)))]"
    using str sorted_ne idat app wr
    by (simp add: combine_group_def Let_def)
  then show ?thesis using g by (simp add: combine_webm_segments_def bind_def)
qed


lemma mset_singleton_list: "mset xs = {#x#} \<Longrightarrow> xs = [x]"
  by (cases xs) auto

lemma filter_unique:
  assumes "mset (filter P xs) = {#x#}"
  shows "filter P xs = [x]"
  using assms by (rule mset_singleton_list)


lemma key_of_prefix:
  "is_digit c \<Longrightarrow> group_key_of (JStr (segment_prefix @ c # ''.webm'')) = Inr (Some ''ab12_profile_7'')"
  "group_key_of (JStr (segment_prefix @ ''inits/i.webm'')) = Inr (Some ''ab12_profile_7'')"
  by (simp_all add: segment_prefix_def group_key_of_def match_run_at_def startswith_def is_lower_hex_def is_digit_def)

lemma on_host: "contains (segment_prefix @ rest) ''video-akpcw.spotifycdn.com''"
  by (simp add: segment_prefix_def startswith_def)



section \<open>Segments of role unknown\<close>

lemma body_lengths: "length init_body = 104" "length media_body = 101"
  by (simp_all add: init_body_def media_body_def)

lemma lower_video_webm: "lower ''video/webm'' = ''video/webm''"
  by (simp add: lower_def lower_char_def upper_chars_def lower_chars_def)

lemma filename_of_prefix:
  "generate_filename segment_env (segment_prefix @ ''7.webm'') ''.webm'' = Inr ''7.webm''"
  "generate_filename segment_env (segment_prefix @ ''1.webm'') ''.webm'' = Inr ''1.webm''"
  "generate_filename segment_env (segment_prefix @ ''inits/i.webm'') ''.webm'' = Inr ''i.webm''"
  by (simp_all add: generate_filename_def base_name_of_def segment_env_def offline_env_def simple_url_path_def
      segment_prefix_def strip_chr_def rsplit1_head_def keeps_char_def is_word_char_def is_ascii_alnum_def Let_def)

lemma ext_video_webm: "get_file_extension (JStr ''video/webm'') data = Inr ''.webm''"
  by (simp add: get_file_extension_JStr startswith_def)

lemma download_segment:
  assumes "generate_filename segment_env u ''.webm'' = Inr name"
  shows "download_media segment_env (har_candidate u None) =
     (segment_candidate u (classify_segment u) (if contains u ''inits'' then init_body else media_body),
      Some (path_join videos_folder name))"
  using assms
  by (simp add: download_media_def har_candidate_def segment_candidate_def segment_env_def [unfolded offline_env_def]
       segment_server_def body_lengths lower_video_webm ext_video_webm Let_def startswith_def)

lemma classify_examples:
  "classify_segment (segment_prefix @ ''7.webm'') = Unknown"
  "classify_segment (segment_prefix @ ''1.webm'') = Media"
  "classify_segment (segment_prefix @ ''inits/i.webm'') = Init"
  "\<not> contains (segment_prefix @ ''7.webm'') ''inits''"
  "\<not> contains (segment_prefix @ ''1.webm'') ''inits''"
  "contains (segment_prefix @ ''inits/i.webm'') ''inits''"
  by (simp_all add: classify_segment_def segment_prefix_def startswith_def)

lemma download_examples:
  "download_media segment_env (har_candidate (segment_prefix @ ''7.webm'') None) =
     (segment_candidate (segment_prefix @ ''7.webm'') Unknown media_body, Some (path_join videos_folder ''7.webm''))"
  "download_media segment_env (har_candidate (segment_prefix @ ''1.webm'') None) =
     (segment_candidate (segment_prefix @ ''1.webm'') Media media_body, Some (path_join videos_folder ''1.webm''))"
  "download_media segment_env (har_candidate (segment_prefix @ ''inits/i.webm'') None) =
     (segment_candidate (segment_prefix @ ''inits/i.webm'') Init init_body, Some (path_join videos_folder ''i.webm''))"
  using download_segment[OF filename_of_prefix(1)] download_segment[OF filename_of_prefix(2)]
    download_segment[OF filename_of_prefix(3)] classify_examples
  by simp_all

lemma download_media_cases:
  "fst (download_media e c) = c \<or>
   (\<exists>u r. url c = JStr u \<and> decoded_data c = None \<and>
      fst (download_media e c) =
        c\<lparr>is_video_segment := True, segment_data := Some r, segment_type := Some (classify_segment u)\<rparr>)"
proof (cases "decoded_data c = None")
  case False
  then show ?thesis by (simp add: download_media_def)
next
  case True
  show ?thesis
  proof (cases "url c")
    case (JStr u)
    show ?thesis
    proof (cases "http_get e u")
      case None
      then show ?thesis using True JStr by (simp add: download_media_def)
    next
      case (Some response)
      show ?thesis
      proof (cases "get_file_extension (JStr (lower (header_content_type response))) (body response)")
        case (Inl err)
        then show ?thesis using True JStr Some
          by (simp add: download_media_def Let_def)
      next
        case ext: (Inr ext)
        show ?thesis
        proof (cases "generate_filename e u ext")
          case (Inl err)
          then show ?thesis using True JStr Some ext
            by (simp add: download_media_def Let_def)
        next
          case (Inr name)
          then show ?thesis using True JStr Some ext
            by (auto simp: download_media_def Let_def)
        qed
      qed
    qed
  qed (simp_all add: download_media_def True)
qed









section \<open>Embedded payloads stay out of assembly\<close>

lemma download_embedded_unchanged:
  "decoded_data m \<noteq> None \<Longrightarrow> fst (download_media e m) = m"
  by (simp add: download_media_def)

lemma candidate_info_unflagged:
  "candidate_info e response u = Inr info \<Longrightarrow> unflagged info"
  by (auto simp: candidate_info_def bind_def unflagged_def split: sum.splits)

lemma process_entry_unflagged:
  "process_entry e entry found = Inr (found', Some info) \<Longrightarrow> unflagged info"
  by (auto simp: process_entry_def bind_def split: sum.splits if_splits dest: candidate_info_unflagged)

lemma process_entries_unflagged:
  "list_all unflagged images \<Longrightarrow> list_all unflagged (fst (process_entries e es found images))"
proof (induction es arbitrary: found images)
  case Nil
  then show ?case by simp
next
  case (Cons entry es)
  show ?case
  proof (cases "process_entry e entry found")
    case (Inl err)
    then show ?thesis using Cons by simp
  next
    case (Inr r)
    obtain found' info where r: "r = (found', info)" by (cases r)
    show ?thesis
    proof (cases info)
      case None
      then show ?thesis using Cons Inr r by simp
    next
      case (Some i)
      then have "unflagged i" using Inr r process_entry_unflagged by blast
      then have "list_all unflagged (images @ [i])" using Cons.prems by simp
      then show ?thesis using Cons.IH Inr r Some by simp
    qed
  qed
qed

lemma extract_unflagged:
  "extract_spotify_images e har_data found = Inr (candidates, found') \<Longrightarrow> list_all unflagged candidates"
  using process_entries_unflagged[of "[]"]
  by (auto simp: extract_spotify_images_def bind_def split: sum.splits if_splits) (metis fst_conv)

lemma group_segments_filter:
  "\<forall>m\<in>set ms. \<not> P m \<longrightarrow> \<not> is_video_segment m \<Longrightarrow>
   group_segments (filter P ms) gs = group_segments ms gs"
  by (induction ms arbitrary: gs) (auto simp: bind_def split: sum.splits option.splits)

text \<open>
  C10: the candidates that \<^verbatim>\<open>extract_spotify_images\<close> returns carry no segment key.
  After the download loop every candidate with an embedded decoded payload is still
  without the flag \<^verbatim>\<open>is_video_segment\<close> and without \<^verbatim>\<open>segment_data\<close>, since
  \<^verbatim>\<open>save_embedded_media\<close> does not write to it; and \<^verbatim>\<open>combine_webm_segments\<close> gives the
  same result on the resolved list as on the list without those candidates: only
  fetched candidates are grouped and concatenated.
\<close>

theorem embedded_candidates_never_assembled:
  assumes "extract_spotify_images e har_data found = Inr (candidates, found')"
  shows "list_all (\<lambda>m. decoded_data m = None \<or> (\<not> is_video_segment m \<and> segment_data m = None))
           (map fst (map (download_media e) candidates))
       \<and> combine_webm_segments e (map fst (map (download_media e) candidates))
         = combine_webm_segments e
             (filter (\<lambda>m. decoded_data m = None) (map fst (map (download_media e) candidates)))"
proof -
  let ?res = "map fst (map (download_media e) candidates)"
  have u: "list_all unflagged candidates" using assms by (rule extract_unflagged)
  have 1: "decoded_data (fst (download_media e c)) = None \<or>
        (\<not> is_video_segment (fst (download_media e c)) \<and> segment_data (fst (download_media e c)) = None)"
    if "unflagged c" for c
  proof (cases "decoded_data c = None")
    case True
    then show ?thesis using download_media_cases[of e c] by auto
  next
    case False
    then show ?thesis using that download_embedded_unchanged[of c e] by (simp add: unflagged_def)
  qed
  have a: "list_all (\<lambda>m. decoded_data m = None \<or> (\<not> is_video_segment m \<and> segment_data m = None)) ?res"
    using u 1 by (auto simp: list_all_iff)
  then have "\<forall>m\<in>set ?res. \<not> decoded_data m = None \<longrightarrow> \<not> is_video_segment m"
    by (auto simp: list_all_iff)
  then have "group_segments (filter (\<lambda>m. decoded_data m = None) ?res) [] = group_segments ?res []"
    by (rule group_segments_filter)
  then show ?thesis using a by (simp add: combine_webm_segments_def)
qed


lemma image_url_prefix:
  "is_spotify_image_url (JStr (segment_prefix @ ''0.webm'')) = Inr False"
  "is_spotify_image_url (JStr (segment_prefix @ ''1.webm'')) = Inr False"
  "is_spotify_image_url (JStr (segment_prefix @ ''inits/i.webm'')) = Inr False"
  by (simp_all add: is_spotify_image_url_def spotify_image_domains_def bind_def startswith_def segment_prefix_def)

lemma video_url_prefix: "is_spotify_video_url (JStr (segment_prefix @ rest)) = Inr True"
  by (simp add: is_spotify_video_url_def spotify_video_domains_def bind_def on_host)

lemma candidate_info_plain:
  "candidate_info e (JObj []) u = Inr \<lparr>url = u, content_type = JStr [], decoded_data = None,
      is_video_segment = False, segment_data = None, segment_type = None\<rparr>"
  by (simp add: candidate_info_def bind_def get_content_type_def embedded_payload_def)

lemma candidate_info_base64:
  "t \<noteq> [] \<Longrightarrow> candidate_info e (JObj [(''content'', JObj [(''encoding'', JStr ''base64''), (''text'', JStr t)])]) u =
     Inr \<lparr>url = u, content_type = JStr [], decoded_data = b64decode e t,
      is_video_segment = False, segment_data = None, segment_type = None\<rparr>"
  by (simp add: candidate_info_def bind_def get_content_type_def embedded_payload_def)

lemma process_entry_video:
  assumes "is_spotify_image_url (JStr u) = Inr False" "is_spotify_video_url (JStr u) = Inr True"
  shows "process_entry e (JObj [(''request'', JObj [(''url'', JStr u)]), (''response'', response)]) found =
     bind (candidate_info e response (JStr u)) (\<lambda>info. Inr (found, Some info))"
  using assms by (simp add: process_entry_def bind_def)

lemma extract_example:
  "extract_spotify_images segment_env
     (har_document [har_entry (segment_prefix @ ''0.webm'') (Some ''KioqKg==''),
                    har_entry (segment_prefix @ ''inits/i.webm'') None,
                    har_entry (segment_prefix @ ''1.webm'') None]) []
   = Inr ([har_candidate (segment_prefix @ ''0.webm'') (Some [0x2A]),
           har_candidate (segment_prefix @ ''inits/i.webm'') None,
           har_candidate (segment_prefix @ ''1.webm'') None], [])"
proof -
  have b: "b64decode segment_env t = Some [0x2A]" for t by (simp add: segment_env_def)
  have e0: "process_entry segment_env (har_entry (segment_prefix @ ''0.webm'') (Some ''KioqKg=='')) found
      = Inr (found, Some (har_candidate (segment_prefix @ ''0.webm'') (Some [0x2A])))" for found
    unfolding har_entry_def option.case
    by (subst process_entry_video[OF image_url_prefix(1) video_url_prefix])
       (simp add: candidate_info_base64 b bind_def har_candidate_def)
  have ei: "process_entry segment_env (har_entry (segment_prefix @ ''inits/i.webm'') None) found
      = Inr (found, Some (har_candidate (segment_prefix @ ''inits/i.webm'') None))" for found
    unfolding har_entry_def option.case
    by (subst process_entry_video[OF image_url_prefix(3) video_url_prefix])
       (simp add: candidate_info_plain bind_def har_candidate_def)
  have e1: "process_entry segment_env (har_entry (segment_prefix @ ''1.webm'') None) found
      = Inr (found, Some (har_candidate (segment_prefix @ ''1.webm'') None))" for found
    unfolding har_entry_def option.case
    by (subst process_entry_video[OF image_url_prefix(2) video_url_prefix])
       (simp add: candidate_info_plain bind_def har_candidate_def)
  show ?thesis
    by (simp add: extract_spotify_images_def invalid_har_format_def har_document_def bind_def e0 ei e1)
qed

theorem embedded_candidates_never_assembled_witness:
  "\<exists>paths. combine_webm_segments segment_env
      (map fst (map (download_media segment_env)
         [har_candidate (segment_prefix @ ''0.webm'') (Some [0x2A]),
          har_candidate (segment_prefix @ ''inits/i.webm'') None,
          har_candidate (segment_prefix @ ''1.webm'') None]))
    = Inr (paths, [(canvas_path ''ab12_profile_7'', init_body @ media_body)])"
proof -
  let ?i = "segment_candidate (segment_prefix @ ''inits/i.webm'') Init init_body"
  let ?x = "segment_candidate (segment_prefix @ ''1.webm'') Media media_body"
  let ?c0 = "har_candidate (segment_prefix @ ''0.webm'') (Some [0x2A])"
  have w: "file_write segment_env (canvas_path ''ab12_profile_7'')"
    by (simp add: segment_env_def offline_env_def)
  have c0: "fst (download_media segment_env ?c0) = ?c0"
    by (rule download_embedded_unchanged) (simp add: har_candidate_def)
  have res: "map fst (map (download_media segment_env)
         [?c0, har_candidate (segment_prefix @ ''inits/i.webm'') None,
          har_candidate (segment_prefix @ ''1.webm'') None]) = [?c0, ?i, ?x]"
    by (simp add: c0 download_examples)
  have flt: "filter (\<lambda>m. decoded_data m = None) [?c0, ?i, ?x] = [?i, ?x]"
    by (simp add: har_candidate_def segment_candidate_def)
  have g: "in_group ''ab12_profile_7'' ?i" "in_group ''ab12_profile_7'' ?x"
    using key_of_prefix(1)[of "CHR ''1''"] key_of_prefix(2)
    by (simp_all add: in_group_def segment_candidate_def on_host is_digit_def)
  have "\<exists>paths. combine_webm_segments segment_env [?i, ?x] =
      Inr (paths, [(canvas_path ''ab12_profile_7'', data_of (last [?i]) @
         concat (map data_of (sort_key segment_number (filter (\<lambda>m. \<not> is_init m) [?i, ?x]))))])"
    by (rule combine_one_group[OF _ _ _ _ _ w])
       (simp_all add: g, simp_all add: segment_candidate_def is_init_def)
  then have f: "\<exists>paths. combine_webm_segments segment_env [?i, ?x] =
      Inr (paths, [(canvas_path ''ab12_profile_7'', init_body @ media_body)])"
    by (simp add: is_init_def data_of_def segment_candidate_def)
  have "combine_webm_segments segment_env [?c0, ?i, ?x] = combine_webm_segments segment_env [?i, ?x]"
    using embedded_candidates_never_assembled [OF extract_example] unfolding res flt by (rule conjunct2)
  then show ?thesis unfolding res using f by (simp only:)
qed

section \<open>Documents without \<^verbatim>\<open>log.entries\<close>\<close>

lemma combine_nil: "combine_webm_segments e [] = Inr ([], [])"
  by (simp add: combine_webm_segments_def bind_def)

lemma extract_invalid:
  "invalid_har_format har_data = Inr True \<Longrightarrow> extract_spotify_images e har_data found = Inr ([], found)"
  by (simp add: extract_spotify_images_def bind_def)

lemma invalid_no_log:
  "map_of d ''log'' = None \<Longrightarrow> invalid_har_format (JObj d) = Inr True"
  by (simp add: invalid_har_format_def bind_def map_of_eq_None_iff)

lemma invalid_no_entries:
  "map_of d ''log'' = Some (JObj l) \<Longrightarrow> map_of l ''entries'' = None \<Longrightarrow>
   invalid_har_format (JObj d) = Inr True"
proof -
  assume a: "map_of d ''log'' = Some (JObj l)" and b: "map_of l ''entries'' = None"
  from a have "''log'' \<in> fst ` set d" by (meson domI dom_map_of_conv_image_fst set_mp subsetI domIff map_of_eq_None_iff option.distinct(1))
  moreover from b have "''entries'' \<notin> fst ` set l" by (simp add: map_of_eq_None_iff)
  ultimately show ?thesis using a by (simp add: invalid_har_format_def bind_def)
qed

lemma report_no_log:
  "map_of d ''log'' = None \<Longrightarrow> file_write e (report_path e) \<Longrightarrow>
   save_analysis_report e (JObj d) [] = Inr (report_path e)"
  by (simp add: save_analysis_report_def bind_def)

lemma report_no_entries:
  "map_of d ''log'' = Some (JObj l) \<Longrightarrow> map_of l ''entries'' = None \<Longrightarrow> file_write e (report_path e) \<Longrightarrow>
   save_analysis_report e (JObj d) [] = Inr (report_path e)"
  by (simp add: save_analysis_report_def bind_def)

lemma process_invalid:
  assumes "invalid_har_format har_data = Inr True"
    and "save_analysis_report e har_data [] = Inr report"
  shows "\<exists>r. process_har_data e har_data found = Inr (r, found) \<and> success r
            \<and> total_media_found r = 0 \<and> combined_videos r = 0"
  using assms by (simp add: process_har_data_def extract_invalid combine_nil bind_def Let_def)

lemma process_never_fails:
  "process_har_data e har_data found = Inr (r, found') \<Longrightarrow> success r"
  by (auto simp: process_har_data_def bind_def Let_def split: sum.splits)

text \<open>
  C6, as stated, fails: \<^verbatim>\<open>extract_spotify_images\<close> answers a document without
  \<^verbatim>\<open>log.entries\<close> with an empty list, and \<^verbatim>\<open>process_har_data\<close> goes on to its result
  dict, whose \<^verbatim>\<open>success\<close> is always \<^verbatim>\<open>True\<close>. The empty document gives a result with
  \<^verbatim>\<open>success = True\<close>.
\<close>

theorem empty_document_succeeds_counterexample:
  "process_har_data offline_env (JObj []) [] =
     Inr (\<lparr>success = True, total_media_found = 0, downloaded_files = [], combined_videos = 0,
           report_file = ''har_extracted/data/har_analysis_17.json'',
           result_output_folder = ''har_extracted''\<rparr>, [])"
  by (simp add: process_har_data_def extract_spotify_images_def invalid_har_format_def combine_nil bind_def
      save_analysis_report_def report_path_def offline_env_def path_join_def data_folder_def output_folder_def
      str_int_def str_nat.simps digit_chars_def)

text \<open>
  C6, amended: for a document (a JSON object) that lacks the key \<^verbatim>\<open>log\<close>, or whose
  \<^verbatim>\<open>log\<close> is an object that lacks \<^verbatim>\<open>entries\<close>, the run is not fatal: when the report
  can be written, \<^verbatim>\<open>process_har_data\<close> returns a result with \<^verbatim>\<open>success = True\<close>, no media
  found and no combined video, and leaves \<^verbatim>\<open>found_urls\<close> as it was. Whatever the
  document, a result that \<^verbatim>\<open>process_har_data\<close> returns has \<^verbatim>\<open>success = True\<close>.
\<close>

theorem missing_log_entries_is_not_fatal:
  assumes "map_of d ''log'' = None \<or> (\<exists>l. map_of d ''log'' = Some (JObj l) \<and> map_of l ''entries'' = None)"
    and "file_write e (report_path e)"
  shows "(\<exists>r. process_har_data e (JObj d) found = Inr (r, found) \<and> success r
            \<and> total_media_found r = 0 \<and> combined_videos r = 0)
       \<and> (\<forall>har_data r found'. process_har_data e har_data found = Inr (r, found') \<longrightarrow> success r)"
proof -
  have i: "invalid_har_format (JObj d) = Inr True"
    using assms(1) invalid_no_log invalid_no_entries by blast
  have "save_analysis_report e (JObj d) [] = Inr (report_path e)"
    using assms report_no_log report_no_entries by blast
  then show ?thesis using process_invalid[OF i] process_never_fails by blast
qed

theorem missing_log_entries_is_not_fatal_witness:
  "\<exists>r. process_har_data offline_env (JObj [(''log'', JObj [(''version'', JStr ''1.2'')])]) [''https://i.scdn.co/image/x'']
        = Inr (r, [''https://i.scdn.co/image/x'']) \<and> success r \<and> total_media_found r = 0 \<and> combined_videos r = 0"
  using missing_log_entries_is_not_fatal [of "[(''log'', JObj [(''version'', JStr ''1.2'')])]" offline_env "[''https://i.scdn.co/image/x'']"]
  by (simp add: offline_env_def)


text \<open>
  C5 is what the guard is written for, but the code misses the case of a \<^verbatim>\<open>log\<close> that
  is not an object. On \<^verbatim>\<open>{"log": null}\<close> the guard itself raises \<^verbatim>\<open>TypeError\<close>
  (\<^verbatim>\<open>'entries' not in None\<close>), outside any \<^verbatim>\<open>try\<close>. On \<^verbatim>\<open>{"log": []}\<close> the guard returns
  the empty list, and \<^verbatim>\<open>save_analysis_report\<close> then raises \<^verbatim>\<open>AttributeError\<close> on
  \<^verbatim>\<open>har_data.get('log', {}).get('version', '')\<close>. Both documents lack \<^verbatim>\<open>log.entries\<close>;
  neither run returns a result.
\<close>

theorem non_object_log_raises:
  "process_har_data e (JObj [(''log'', JNull)]) found = Inl TypeError
   \<and> process_har_data e (JObj [(''log'', JArr [])]) found = Inl AttributeError"
  by (simp add: process_har_data_def extract_spotify_images_def invalid_har_format_def combine_nil bind_def
      save_analysis_report_def Let_def)

theorem non_object_log_raises_witness:
  "process_har_data offline_env (JObj [(''log'', JNull)]) [] = Inl TypeError
   \<and> process_har_data offline_env (JObj [(''log'', JArr [])]) [] = Inl AttributeError"
  using non_object_log_raises [of offline_env "[]"] by simp
section \<open>Entries whose URLs are the image hosts\<close>

lemma contains_self: "contains s s"
  by (cases s) (simp_all add: startswith_def)

lemma any_domain_in_str:
  "any_domain_in ds (JStr u) = Inr (\<exists>d\<in>set ds. contains u d)"
  by (induction ds) (auto simp: bind_def)

lemma image_host_is_image_url:
  "u \<in> set spotify_image_domains \<Longrightarrow> is_spotify_image_url (JStr u) = Inr True"
  unfolding is_spotify_image_url_def any_domain_in_str using contains_self by auto

lemma scan_headers_ok:
  "list_all wf_header hs \<Longrightarrow> \<exists>v. scan_headers hs = Inr v"
proof (induction hs)
  case Nil
  then show ?case by simp
next
  case (Cons h hs)
  then obtain kv where h: "h = JObj kv" by (auto simp: wf_header_def split: json.splits)
  show ?case
  proof (cases "map_of kv ''name''")
    case None
    then show ?thesis using Cons h by (simp add: bind_def lower_def)
  next
    case (Some name)
    then obtain n where "name = JStr n"
      using Cons.prems h by (auto simp: wf_header_def split: json.splits)
    then show ?thesis using Cons h Some by (simp add: bind_def)
  qed
qed

lemma get_content_type_ok:
  "wf_response r \<Longrightarrow> \<exists>v. get_content_type r = Inr v"
proof -
  assume w: "wf_response r"
  then obtain kv where r: "r = JObj kv" by (auto simp: wf_response_def split: json.splits)
  show ?thesis
  proof (cases "map_of kv ''headers''")
    case None
    then show ?thesis using r by (simp add: get_content_type_def bind_def)
  next
    case (Some hv)
    then obtain hs where "hv = JArr hs" "list_all wf_header hs"
      using w r by (auto simp: wf_response_def split: json.splits)
    then show ?thesis using r Some scan_headers_ok[of hs] by (simp add: get_content_type_def bind_def)
  qed
qed

lemma embedded_payload_ok:
  "wf_response r \<Longrightarrow> \<exists>p. embedded_payload e r = Inr p"
proof -
  assume w: "wf_response r"
  then obtain kv where r: "r = JObj kv" by (auto simp: wf_response_def split: json.splits)
  show ?thesis
  proof (cases "map_of kv ''content''")
    case None
    then show ?thesis using r by (simp add: embedded_payload_def bind_def)
  next
    case (Some cv)
    then obtain c where "cv = JObj c"
      using w r by (auto simp: wf_response_def split: json.splits)
    then show ?thesis using r Some by (simp add: embedded_payload_def bind_def)
  qed
qed

lemma candidate_info_ok:
  assumes "wf_response r"
  shows "\<exists>info. candidate_info e r u = Inr info \<and> url info = u"
proof -
  obtain kv where r: "r = JObj kv" using assms by (auto simp: wf_response_def split: json.splits)
  obtain ct where ct: "get_content_type r = Inr ct" using get_content_type_ok[OF assms] by blast
  obtain p where p: "embedded_payload e r = Inr p" using embedded_payload_ok[OF assms] by blast
  show ?thesis using r ct p by (simp add: candidate_info_def bind_def)
qed

lemma wf_response_empty: "wf_response (JObj [])"
  by (simp add: wf_response_def)

lemma process_entry_image_host:
  assumes "wf_entry entry" and "request_url entry = JStr u" and "u \<in> set spotify_image_domains"
  shows "\<exists>info. process_entry e entry found = Inr (found, Some info) \<and> url info = JStr u"
proof -
  obtain kv where en: "entry = JObj kv" using assms(1) by (auto simp: wf_entry_def split: json.splits)
  obtain rq where rq: "map_of kv ''request'' = Some (JObj rq)"
    using assms(1) en by (auto simp: wf_entry_def split: json.splits option.splits)
  have u: "py_get (JObj rq) ''url'' (JStr []) = Inr (JStr u)"
    using assms(2) en rq by (simp add: request_url_def bind_def)
  define resp where "resp = (case map_of kv ''response'' of None \<Rightarrow> JObj [] | Some r \<Rightarrow> r)"
  have "wf_response resp"
    using assms(1) en by (auto simp: resp_def wf_entry_def wf_response_empty split: option.splits)
  then obtain info where i: "candidate_info e resp (JStr u) = Inr info" "url info = JStr u"
    using candidate_info_ok by blast
  have "process_entry e entry found = Inr (found, Some info)"
    using en rq u i(1) image_host_is_image_url[OF assms(3)]
    by (simp add: process_entry_def bind_def resp_def del: py_get.simps(1))
       (simp add: bind_def)
  then show ?thesis using i(2) by blast
qed

lemma process_entries_image_hosts:
  assumes "list_all wf_entry es"
    and "\<forall>entry\<in>set es. \<exists>u\<in>set spotify_image_domains. request_url entry = JStr u"
  shows "\<exists>cs. process_entries e es found images = (images @ cs, found)
             \<and> map url cs = map request_url es"
  using assms
proof (induction es arbitrary: images)
  case Nil
  then show ?case by simp
next
  case (Cons entry es)
  then obtain u where u: "u \<in> set spotify_image_domains" "request_url entry = JStr u" by auto
  have "wf_entry entry" using Cons.prems by simp
  then obtain info where i: "process_entry e entry found = Inr (found, Some info)" "url info = JStr u"
    using process_entry_image_host u by blast
  obtain cs where cs: "process_entries e es found (images @ [info]) = ((images @ [info]) @ cs, found)"
      "map url cs = map request_url es"
    using Cons.IH[of "images @ [info]"] Cons.prems by auto
  have "process_entries e (entry # es) found images = (images @ (info # cs), found)"
    using i(1) cs(1) by simp
  moreover have "map url (info # cs) = map request_url (entry # es)"
    using i(2) u(2) cs(2) by simp
  ultimately show ?case by blast
qed

lemma extract_entries:
  assumes "map_of d ''log'' = Some (JObj l)" and "map_of l ''entries'' = Some (JArr entries)"
  shows "extract_spotify_images e (JObj d) found = Inr (process_entries e entries found [])"
proof -
  have "''log'' \<in> fst ` set d" using assms(1) by (metis map_of_SomeD fst_conv image_eqI)
  moreover have "''entries'' \<in> fst ` set l" using assms(2) by (metis map_of_SomeD fst_conv image_eqI)
  ultimately show ?thesis using assms
    by (simp add: extract_spotify_images_def invalid_har_format_def bind_def)
qed

lemma image_host_entries_wf: "list_all wf_entry image_host_entries"
  by (simp add: image_host_entries_def list_all_iff wf_entry_def har_entry_def wf_response_def)

lemma request_url_har_entry: "request_url (har_entry u t) = JStr u"
  by (simp add: request_url_def har_entry_def bind_def)

lemma image_host_entries_urls: "map request_url image_host_entries = map JStr spotify_image_domains"
  by (simp add: image_host_entries_def request_url_har_entry)

text \<open>
  C7, as stated, fails: an entry is processed inside a \<^verbatim>\<open>try\<close>, and an entry that raises
  is skipped. In a document whose eight entries have the eight image hosts as URLs
  and whose first entry has the response \<^verbatim>\<open>null\<close>, the expression
  \<^verbatim>\<open>response.get('status', 0)\<close> raises \<^verbatim>\<open>AttributeError\<close> and the candidate for
  \<^verbatim>\<open>i.scdn.co\<close> is missing.
\<close>

theorem null_response_entry_omitted_counterexample:
  "map request_url (null_response_entry ''i.scdn.co'' # tl image_host_entries) = map JStr spotify_image_domains
   \<and> (\<exists>candidates. extract_spotify_images offline_env
          (har_document (null_response_entry ''i.scdn.co'' # tl image_host_entries)) [] = Inr (candidates, [])
        \<and> map url candidates = map JStr (tl spotify_image_domains)
        \<and> JStr ''i.scdn.co'' \<notin> set (map url candidates))"
proof -
  have r1: "request_url (null_response_entry ''i.scdn.co'') = JStr ''i.scdn.co''"
    by (simp add: null_response_entry_def request_url_def bind_def)
  have urls: "map request_url (tl image_host_entries) = map JStr (tl spotify_image_domains)"
    by (simp only: map_tl image_host_entries_urls)
  have hd: "map JStr spotify_image_domains = JStr ''i.scdn.co'' # map JStr (tl spotify_image_domains)"
    by (simp add: spotify_image_domains_def)
  have r: "map request_url (null_response_entry ''i.scdn.co'' # tl image_host_entries) = map JStr spotify_image_domains"
    using r1 urls hd by simp
  have first: "process_entry offline_env (null_response_entry ''i.scdn.co'') [] = Inl AttributeError"
    using image_host_is_image_url[of "''i.scdn.co''"]
    by (simp add: process_entry_def null_response_entry_def bind_def candidate_info_def spotify_image_domains_def)
  have wf: "list_all wf_entry (tl image_host_entries)"
    using image_host_entries_wf by (simp add: list_all_iff image_host_entries_def spotify_image_domains_def)
  have "\<forall>entry\<in>set (tl image_host_entries). \<exists>u\<in>set spotify_image_domains. request_url entry = JStr u"
    by (auto simp: image_host_entries_def request_url_har_entry spotify_image_domains_def)
  then obtain cs where cs: "process_entries offline_env (tl image_host_entries) [] [] = ([] @ cs, [])"
      "map url cs = map request_url (tl image_host_entries)"
    using process_entries_image_hosts[OF wf] by blast
  have e: "extract_spotify_images offline_env
      (har_document (null_response_entry ''i.scdn.co'' # tl image_host_entries)) [] = Inr (cs, [])"
    unfolding har_document_def
    by (subst extract_entries[where l="[(''entries'', JArr (null_response_entry ''i.scdn.co'' # tl image_host_entries))]"
          and entries="null_response_entry ''i.scdn.co'' # tl image_host_entries"])
       (simp_all add: first cs(1))
  have n: "JStr ''i.scdn.co'' \<notin> set (map url cs)"
    unfolding cs(2) urls by (simp add: spotify_image_domains_def)
  have m: "map url cs = map JStr (tl spotify_image_domains)"
    using cs(2) urls by (simp only:)
  show ?thesis
  proof (intro conjI exI[of _ cs])
    show "map request_url (null_response_entry ''i.scdn.co'' # tl image_host_entries) = map JStr spotify_image_domains"
      by (rule r)
    show "extract_spotify_images offline_env
        (har_document (null_response_entry ''i.scdn.co'' # tl image_host_entries)) [] = Inr (cs, [])"
      by (rule e)
    show "map url cs = map JStr (tl spotify_image_domains)" by (rule m)
    show "JStr ''i.scdn.co'' \<notin> set (map url cs)" by (rule n)
  qed
qed


text \<open>
  C7, amended: for any capture document whose entries have the shape of the capture
  format and whose set of request URLs is the image-host list, the classification
  returns one candidate for each entry, in the order of the entries, so the set of
  candidate URLs is that URL set; \<^verbatim>\<open>found_urls\<close> is left as it was.
\<close>

theorem image_host_entries_all_candidates:
  assumes "map_of d ''log'' = Some (JObj l)" and "map_of l ''entries'' = Some (JArr entries)"
    and "list_all wf_entry entries"
    and "set (map request_url entries) = set (map JStr spotify_image_domains)"
  shows "\<exists>candidates. extract_spotify_images e (JObj d) found = Inr (candidates, found)
           \<and> map url candidates = map request_url entries
           \<and> set (map url candidates) = set (map JStr spotify_image_domains)"
proof -
  have "\<forall>entry\<in>set entries. \<exists>u\<in>set spotify_image_domains. request_url entry = JStr u"
  proof
    fix entry assume "entry \<in> set entries"
    then have "request_url entry \<in> set (map JStr spotify_image_domains)" using assms(4) by auto
    then show "\<exists>u\<in>set spotify_image_domains. request_url entry = JStr u" by auto
  qed
  then obtain cs where cs: "process_entries e entries found [] = ([] @ cs, found)"
      "map url cs = map request_url entries"
    using process_entries_image_hosts[OF assms(3)] by blast
  have s: "set (map url cs) = set (map JStr spotify_image_domains)"
    using cs(2) assms(4) by (simp only:)
  have ex: "extract_spotify_images e (JObj d) found = Inr (cs, found)"
    using extract_entries[OF assms(1,2), of e found] cs(1) by simp
  show ?thesis using ex cs(2) s by blast
qed

theorem image_host_entries_all_candidates_witness:
  "\<exists>candidates. extract_spotify_images offline_env (har_document image_host_entries) [] = Inr (candidates, [])
     \<and> map url candidates = map JStr spotify_image_domains"
  using image_host_entries_all_candidates [of "[(''log'', JObj [(''entries'', JArr image_host_entries)])]" "[(''entries'', JArr image_host_entries)]"
      image_host_entries offline_env "[]"]
  by (auto simp: har_document_def image_host_entries_wf image_host_entries_urls)


end
